theory Spec2Isabelle
  imports Complex_Main
begin

section \<open>The Fama-MacBeth notebook: data model\<close>

text \<open>
  The notebook is a sequence of cells that read and assign global variables. The model
  keeps those variables in records and makes every cell a function on them. Floating-point
  numbers are idealised as real numbers; the exceptions raised by the numeric libraries
  are values of \<open>error\<close>.
\<close>

datatype error = ValueError | IndexError

text \<open>A two-dimensional array: its shape and its rows.\<close>

record ndarray2 =
  nrows :: nat
  ncols :: nat
  cells :: "real list list"

text \<open>Cell 2 of the notebook: the declared parameters and constants.\<close>

record params =
  rf :: real
  N :: int
  T :: int
  dt :: real
  s :: real

definition notebook_params :: params where
  "notebook_params = \<lparr>rf = 0.01, N = 2000, T = 2520, dt = 1 / 252, s = sqrt (0.5 * (1 / 252))\<rparr>"

text \<open>
  The global variables assigned by the later cells, together with the state of the
  process-wide random generator.
\<close>

record 'g globals =
  rng :: 'g
  beta_true :: "real list"
  mkt :: "real list"
  data :: ndarray2
  b :: "real list"
  res :: "real list"

text \<open>\<open>data[:, i]\<close> and \<open>data[i, :]\<close>: an index outside the shape raises IndexError.\<close>

definition column :: "ndarray2 \<Rightarrow> nat \<Rightarrow> error + real list" where
  "column A i = (if i < ncols A then Inr (map (\<lambda>r. r ! i) (cells A)) else Inl IndexError)"

definition row_at :: "ndarray2 \<Rightarrow> nat \<Rightarrow> error + real list" where
  "row_at A i = (if i < nrows A then Inr (cells A ! i) else Inl IndexError)"

definition well_shaped :: "ndarray2 \<Rightarrow> bool" where
  "well_shaped A \<longleftrightarrow>
     length (cells A) = nrows A \<and> list_all (\<lambda>r. length r = ncols A) (cells A)"

section \<open>The random source\<close>

text \<open>
  The generator is a parameter: \<open>init\<close> maps a seed to a generator state and \<open>gauss\<close>
  draws one standard-normal variate from a state, returning the next state.
  \<open>np.random.seed\<close> overwrites the global state.
\<close>

definition np_random_seed :: "(nat \<Rightarrow> 'g) \<Rightarrow> nat \<Rightarrow> 'g globals \<Rightarrow> 'g globals" where
  "np_random_seed init sd G = G\<lparr>rng := init sd\<rparr>"

fun draws :: "('g \<Rightarrow> real \<times> 'g) \<Rightarrow> nat \<Rightarrow> 'g \<Rightarrow> real list \<times> 'g" where
  "draws gauss 0 g = ([], g)"
| "draws gauss (Suc n) g =
     (case gauss g of (z, g') \<Rightarrow>
        (case draws gauss n g' of (zs, g'') \<Rightarrow> (z # zs, g'')))"

text \<open>The \<open>k\<close>-th variate of the stream that starts at state \<open>g\<close>.\<close>

definition next_state :: "('g \<Rightarrow> real \<times> 'g) \<Rightarrow> 'g \<Rightarrow> 'g" where
  "next_state gauss g = snd (gauss g)"

definition variate :: "('g \<Rightarrow> real \<times> 'g) \<Rightarrow> 'g \<Rightarrow> nat \<Rightarrow> real" where
  "variate gauss g k = fst (gauss ((next_state gauss ^^ k) g))"

text \<open>
  \<open>np.random.normal(loc, scale, (n, 1))\<close> and \<open>np.random.standard_normal((n, 1))\<close>:
  an \<open>n \<times> 1\<close> array is kept as the list of its \<open>n\<close> entries. A negative dimension or a
  negative scale raises ValueError.
\<close>

definition random_normal ::
  "('g \<Rightarrow> real \<times> 'g) \<Rightarrow> real \<Rightarrow> real \<Rightarrow> int \<Rightarrow> 'g \<Rightarrow> error + (real list \<times> 'g)" where
  "random_normal gauss loc scale n g =
     (if scale < 0 \<or> n < 0 then Inl ValueError
      else (case draws gauss (nat n) g of (zs, g') \<Rightarrow>
              Inr (map (\<lambda>z. loc + scale * z) zs, g')))"

definition standard_normal ::
  "('g \<Rightarrow> real \<times> 'g) \<Rightarrow> int \<Rightarrow> 'g \<Rightarrow> error + (real list \<times> 'g)" where
  "standard_normal gauss n g =
     (if n < 0 then Inl ValueError else Inr (draws gauss (nat n) g))"

text \<open>\<open>np.random.standard_normal((m, n))\<close>: the draws fill the array row by row.\<close>

definition standard_normal2 ::
  "('g \<Rightarrow> real \<times> 'g) \<Rightarrow> int \<Rightarrow> int \<Rightarrow> 'g \<Rightarrow> error + (ndarray2 \<times> 'g)" where
  "standard_normal2 gauss m n g =
     (if m < 0 \<or> n < 0 then Inl ValueError
      else (case draws gauss (nat m * nat n) g of (zs, g') \<Rightarrow>
              Inr (\<lparr>nrows = nat m, ncols = nat n,
                    cells = map (\<lambda>i. map (\<lambda>j. zs ! (i * nat n + j)) [0..<nat n]) [0..<nat m]\<rparr>,
                   g')))"

section \<open>The Market Simulator (cell 3)\<close>

text \<open>
  \<open>beta_true = np.random.normal(1, 0.25, (N, 1))\<close>,
  \<open>mkt = 0.06*dt + np.random.standard_normal((T, 1))\<close>,
  \<open>data = rf*dt + np.transpose(beta_true) * mkt + s*np.random.standard_normal((T, N))\<close>.
  The product broadcasts the \<open>1 \<times> N\<close> row of sensitivities against the \<open>T \<times> 1\<close> factor
  column, so cell \<open>(i, j)\<close> holds \<open>beta_true[j] * mkt[i]\<close>.
\<close>

definition simulate :: "('g \<Rightarrow> real \<times> 'g) \<Rightarrow> params \<Rightarrow> 'g globals \<Rightarrow> error + 'g globals" where
  "simulate gauss p G =
     (case random_normal gauss 1 0.25 (N p) (rng G) of
        Inl e \<Rightarrow> Inl e
      | Inr (bt, g1) \<Rightarrow>
          (case standard_normal gauss (T p) g1 of
             Inl e \<Rightarrow> Inl e
           | Inr (zs, g2) \<Rightarrow>
               (let m = map (\<lambda>z. 0.06 * dt p + z) zs in
                (case standard_normal2 gauss (T p) (N p) g2 of
                   Inl e \<Rightarrow> Inl e
                 | Inr (Z, g3) \<Rightarrow>
                     Inr (G\<lparr>rng := g3, beta_true := bt, mkt := m,
                            data := \<lparr>nrows = nat (T p), ncols = nat (N p),
                                     cells = map (\<lambda>i. map (\<lambda>j. rf p * dt p + bt ! j * m ! i
                                                                  + s p * cells Z ! i ! j)
                                                           [0..<nat (N p)])
                                                 [0..<nat (T p)]\<rparr>\<rparr>)))))"

text \<open>A run of the simulator: the seeding cell, then cell 3.\<close>

definition run_simulator ::
  "(nat \<Rightarrow> 'g) \<Rightarrow> ('g \<Rightarrow> real \<times> 'g) \<Rightarrow> nat \<Rightarrow> params \<Rightarrow> 'g globals \<Rightarrow> error + 'g globals" where
  "run_simulator init gauss sd p G = simulate gauss p (np_random_seed init sd G)"

section \<open>The regression solver\<close>

text \<open>
  \<open>LinearRegression()\<close> builds an estimator with the library's defaults, among them
  \<open>fit_intercept=True\<close>; \<open>fit\<close> returns the fitted coefficients and the intercept. The
  solver is a parameter of the estimation stages. The design matrix always has a single
  column and is kept as the list of its entries.
\<close>

record estimator =
  fit_intercept :: bool

record fitted =
  coef :: "real list"
  intercept :: real

type_synonym solver = "estimator \<Rightarrow> real list \<Rightarrow> real list \<Rightarrow> error + fitted"

definition LinearRegression :: estimator where
  "LinearRegression = \<lparr>fit_intercept = True\<rparr>"

text \<open>\<open>model.coef_[0]\<close>.\<close>

definition coef0 :: "fitted \<Rightarrow> error + real" where
  "coef0 model = (case coef model of [] \<Rightarrow> Inl IndexError | c # _ \<Rightarrow> Inr c)"

text \<open>The sum of squared residuals of the line \<open>a + c * x\<close>.\<close>

definition ssr :: "real list \<Rightarrow> real list \<Rightarrow> real \<Rightarrow> real \<Rightarrow> real" where
  "ssr X y a c = (\<Sum>i<length X. (y ! i - (a + c * X ! i))\<^sup>2)"

text \<open>
  The contract of an ordinary-least-squares solver with intercept: on a non-empty sample
  with as many observations as regressor values it returns one coefficient and an
  intercept that minimise the sum of squared residuals.
\<close>

definition least_squares :: "solver \<Rightarrow> bool" where
  "least_squares fit \<longleftrightarrow>
     (\<forall>X y. X \<noteq> [] \<and> length y = length X \<longrightarrow>
        (\<exists>model. fit LinearRegression X y = Inr model \<and> length (coef model) = 1 \<and>
           (\<forall>a c. ssr X y (intercept model) (coef model ! 0) \<le> ssr X y a c)))"

text \<open>The closed form of the slope: covariance over variance.\<close>

definition mean :: "real list \<Rightarrow> real" where
  "mean xs = sum_list xs / real (length xs)"

definition cov :: "real list \<Rightarrow> real list \<Rightarrow> real" where
  "cov X y = (\<Sum>i<length X. (X ! i - mean X) * (y ! i - mean y)) / real (length X)"

definition var :: "real list \<Rightarrow> real" where
  "var X = cov X X"

text \<open>
  Modelled from the spec: the Ordinary-Least-Squares solver of the external interfaces
  (the regression library, which is not part of the repository): a closed-form
  least-squares fit of one regressor, with or without intercept. The library rejects an
  empty sample and samples of different lengths with ValueError, and returns the
  minimum-norm solution (slope 0) when the centred regressor is identically zero.
\<close>

definition LinearRegression_fit :: solver where
  "LinearRegression_fit est X y =
     (if X = [] \<or> length y \<noteq> length X then Inl ValueError
      else
        (let xo = (if fit_intercept est then mean X else 0);
             yo = (if fit_intercept est then mean y else 0);
             sxx = (\<Sum>i<length X. (X ! i - xo) * (X ! i - xo));
             sxy = (\<Sum>i<length X. (X ! i - xo) * (y ! i - yo));
             c = (if sxx = 0 then 0 else sxy / sxx)
         in Inr \<lparr>coef = [c], intercept = yo - c * xo\<rparr>))"

section \<open>The Time-Series Estimator\<close>

text \<open>
  \<open>b = []\<close>, then for \<open>i\<close> in \<open>range(N)\<close>: \<open>y = data[:, i]\<close>, a fresh
  \<open>LinearRegression()\<close> fitted on \<open>(mkt, y)\<close>, and \<open>b.append(model.coef_[0])\<close>.
\<close>

fun ts_loop :: "solver \<Rightarrow> nat list \<Rightarrow> 'g globals \<Rightarrow> error + 'g globals" where
  "ts_loop fit [] G = Inr G"
| "ts_loop fit (i # js) G =
     (case column (data G) i of
        Inl e \<Rightarrow> Inl e
      | Inr y \<Rightarrow>
          (case fit LinearRegression (mkt G) y of
             Inl e \<Rightarrow> Inl e
           | Inr model \<Rightarrow>
               (case coef0 model of
                  Inl e \<Rightarrow> Inl e
                | Inr c \<Rightarrow> ts_loop fit js (G\<lparr>b := b G @ [c]\<rparr>))))"

definition time_series :: "solver \<Rightarrow> params \<Rightarrow> 'g globals \<Rightarrow> error + 'g globals" where
  "time_series fit p G = ts_loop fit [0..<nat (N p)] (G\<lparr>b := []\<rparr>)"

section \<open>The Cross-Sectional Estimator\<close>

text \<open>
  \<open>b = np.array(b)\<close> and \<open>b = b.reshape(-1,1)\<close> turn the list into an \<open>N \<times> 1\<close> array
  with the same entries, which the model keeps as the same list. Then \<open>res = []\<close> and for
  \<open>i\<close> in \<open>range(T)\<close>: \<open>y = data[i, :]\<close>, a fresh \<open>LinearRegression()\<close> fitted on
  \<open>(b, y)\<close>, and \<open>res.append(model.coef_[0])\<close>.
\<close>

fun cs_loop :: "solver \<Rightarrow> nat list \<Rightarrow> 'g globals \<Rightarrow> error + 'g globals" where
  "cs_loop fit [] G = Inr G"
| "cs_loop fit (i # js) G =
     (case row_at (data G) i of
        Inl e \<Rightarrow> Inl e
      | Inr y \<Rightarrow>
          (case fit LinearRegression (b G) y of
             Inl e \<Rightarrow> Inl e
           | Inr model \<Rightarrow>
               (case coef0 model of
                  Inl e \<Rightarrow> Inl e
                | Inr c \<Rightarrow> cs_loop fit js (G\<lparr>res := res G @ [c]\<rparr>))))"

definition cross_sectional :: "solver \<Rightarrow> params \<Rightarrow> 'g globals \<Rightarrow> error + 'g globals" where
  "cross_sectional fit p G = cs_loop fit [0..<nat (T p)] (G\<lparr>res := []\<rparr>)"

section \<open>Summary and significance test\<close>

text \<open>
  Modelled from the spec: the descriptive statistics of the summary stage, which the
  notebook takes from the data-frame library (not part of the repository) through
  \<open>df = pd.DataFrame(res)\<close>: \<open>df.mean()\<close> is the sample mean and \<open>df.std()\<close> the sample
  standard deviation with the library's default of one delta degree of freedom.
\<close>

definition DataFrame_mean :: "real list \<Rightarrow> real" where
  "DataFrame_mean xs = sum_list xs / real (length xs)"

definition DataFrame_std :: "real list \<Rightarrow> real" where
  "DataFrame_std xs =
     sqrt (sum_list (map (\<lambda>x. (x - DataFrame_mean xs)\<^sup>2) xs) / (real (length xs) - 1))"

text \<open>
  \<open>se = df.std()/np.sqrt(T)\<close>, \<open>t_score = df.mean()/se\<close> and
  \<open>p_value = t.sf(t_score, T)[0]\<close>, where \<open>t.sf\<close>, the survival function of Student's
  distribution, is a parameter.
\<close>

record summary =
  se :: real
  t_score :: real
  p_value :: real

definition summarize :: "(real \<Rightarrow> real \<Rightarrow> real) \<Rightarrow> params \<Rightarrow> 'g globals \<Rightarrow> summary" where
  "summarize sf p G =
     (let se' = DataFrame_std (res G) / sqrt (real_of_int (T p));
          t_score' = DataFrame_mean (res G) / se';
          p_value' = sf t_score' (real_of_int (T p))
      in \<lparr>se = se', t_score = t_score', p_value = p_value'\<rparr>)"

section \<open>The estimation pipeline\<close>

text \<open>The estimation cells in notebook order: both passes, then the summary.\<close>

definition fama_macbeth ::
  "solver \<Rightarrow> (real \<Rightarrow> real \<Rightarrow> real) \<Rightarrow> params \<Rightarrow> 'g globals \<Rightarrow> error + ('g globals \<times> summary)" where
  "fama_macbeth fit sf p G =
     (case time_series fit p G of
        Inl e \<Rightarrow> Inl e
      | Inr G1 \<Rightarrow>
          (case cross_sectional fit p G1 of
             Inl e \<Rightarrow> Inl e
           | Inr G2 \<Rightarrow> Inr (G2, summarize sf p G2)))"


section \<open>Least squares: the closed form of the slope\<close>

lemma quad_min:
  fixes A B :: real
  assumes "\<And>t. 0 \<le> A * t\<^sup>2 - 2 * t * B"
  shows "B = 0"
proof (cases "A = 0")
  case True
  from assms[of B] True have "0 \<le> - 2 * (B * B)" by simp
  then have "B * B \<le> 0" by linarith
  then show ?thesis by (auto simp: mult_le_0_iff)
next
  case False
  have h1: "0 \<le> A * 1 - 2 * 1 * B" using assms[of 1] by simp
  have h2: "0 \<le> A * 1 + 2 * 1 * B" using assms[of "-1"] by simp
  from h1 h2 have Apos: "0 < A" using False by linarith
  from assms[of "B / A"] have "0 \<le> A * (B / A)\<^sup>2 - 2 * (B / A) * B" .
  also have "A * (B / A)\<^sup>2 - 2 * (B / A) * B = - (B * B) / A"
    using False by (simp add: power2_eq_square field_simps)
  finally have "0 \<le> - (B * B) / A" .
  then have "B * B \<le> 0" using Apos by (simp add: field_simps)
  then show ?thesis by (auto simp: mult_le_0_iff)
qed

lemma sum_sq_shift:
  fixes r w :: "nat \<Rightarrow> real"
  shows "(\<Sum>i<n. (r i - t * w i)\<^sup>2) = (\<Sum>i<n. (r i)\<^sup>2) + ((\<Sum>i<n. (w i)\<^sup>2) * t\<^sup>2 - 2 * t * (\<Sum>i<n. r i * w i))"
  by (induction n) (simp_all add: power2_eq_square algebra_simps)

lemma normal_eq:
  fixes r w :: "nat \<Rightarrow> real"
  assumes "\<And>t. (\<Sum>i<n. (r i)\<^sup>2) \<le> (\<Sum>i<n. (r i - t * w i)\<^sup>2)"
  shows "(\<Sum>i<n. r i * w i) = 0"
proof (rule quad_min)
  fix t
  show "0 \<le> (\<Sum>i<n. (w i)\<^sup>2) * t\<^sup>2 - 2 * t * (\<Sum>i<n. r i * w i)"
    using assms[of t] unfolding sum_sq_shift by linarith
qed

lemma sum_list_nth: "sum_list (xs::real list) = (\<Sum>i<length xs. xs ! i)"
  by (simp add: sum_list_sum_nth atLeast0LessThan)

lemma ols_normal_equations:
  assumes len: "length y = length X"
    and minimal: "\<And>a' c'. ssr X y a c \<le> ssr X y a' c'"
  shows "(\<Sum>i<length X. y ! i - (a + c * X ! i)) = 0"
    and "(\<Sum>i<length X. (y ! i - (a + c * X ! i)) * X ! i) = 0"
proof -
  let ?r = "\<lambda>i. y ! i - (a + c * X ! i)"
  have "(\<Sum>i<length X. ?r i * 1) = 0"
  proof (rule normal_eq)
    fix t
    have "ssr X y (a + t) c = (\<Sum>i<length X. (?r i - t * 1)\<^sup>2)"
      by (simp add: ssr_def algebra_simps)
    then show "(\<Sum>i<length X. (?r i)\<^sup>2) \<le> (\<Sum>i<length X. (?r i - t * 1)\<^sup>2)"
      using minimal[of "a + t" c] by (simp add: ssr_def)
  qed
  then show "(\<Sum>i<length X. ?r i) = 0" by simp
  show "(\<Sum>i<length X. ?r i * X ! i) = 0"
  proof (rule normal_eq)
    fix t
    have "ssr X y a (c + t) = (\<Sum>i<length X. (?r i - t * X ! i)\<^sup>2)"
      by (simp add: ssr_def algebra_simps)
    then show "(\<Sum>i<length X. (?r i)\<^sup>2) \<le> (\<Sum>i<length X. (?r i - t * X ! i)\<^sup>2)"
      using minimal[of a "c + t"] by (simp add: ssr_def)
  qed
qed

lemma sum_lin3:
  fixes f g h :: "nat \<Rightarrow> real"
  shows "(\<Sum>i<n. f i - m * g i + c * h i) = (\<Sum>i<n. f i) - m * (\<Sum>i<n. g i) + c * (\<Sum>i<n. h i)"
  by (simp add: sum.distrib sum_subtractf sum_distrib_left)

lemma ols_slope_closed_form:
  assumes len: "length y = length X"
    and minimal: "\<And>a' c'. ssr X y a c \<le> ssr X y a' c'"
    and nondeg: "var X \<noteq> 0"
  shows "c = cov X y / var X"
proof -
  let ?n = "length X"
  let ?r = "\<lambda>i. y ! i - (a + c * X ! i)"
  from nondeg have npos: "real ?n \<noteq> 0"
    by (auto simp: var_def cov_def)
  have r0: "(\<Sum>i<?n. ?r i) = 0" and rx: "(\<Sum>i<?n. ?r i * X ! i) = 0"
    using ols_normal_equations[OF len minimal] by blast+
  have "(\<Sum>i<?n. y ! i) = (\<Sum>i<?n. ?r i) + (real ?n * a + c * (\<Sum>i<?n. X ! i))"
    by (simp add: sum.distrib sum_subtractf sum_distrib_left)
  then have sy: "(\<Sum>i<?n. y ! i) = real ?n * a + c * (\<Sum>i<?n. X ! i)"
    using r0 by simp
  have my: "mean y = a + c * mean X"
    using npos sy by (simp add: mean_def sum_list_nth len field_simps)
  have "(\<Sum>i<?n. (X ! i - mean X) * (y ! i - mean y))
      = (\<Sum>i<?n. ?r i * X ! i - mean X * ?r i + c * ((X ! i - mean X) * (X ! i - mean X)))"
    by (rule sum.cong) (simp_all add: my algebra_simps)
  also have "\<dots> = (\<Sum>i<?n. ?r i * X ! i) - mean X * (\<Sum>i<?n. ?r i)
      + c * (\<Sum>i<?n. (X ! i - mean X) * (X ! i - mean X))"
    by (rule sum_lin3)
  finally have "(\<Sum>i<?n. (X ! i - mean X) * (y ! i - mean y))
      = c * (\<Sum>i<?n. (X ! i - mean X) * (X ! i - mean X))"
    using r0 rx by simp
  then have "cov X y = c * var X"
    by (simp add: cov_def var_def)
  then show ?thesis using nondeg by simp
qed

lemma sum_centred:
  assumes "xs \<noteq> []"
  shows "(\<Sum>i<length xs. xs ! i - mean xs) = 0"
  using assms by (simp add: sum_subtractf mean_def sum_list_nth)

lemma sxx_zero_sxy_zero:
  fixes u v :: "nat \<Rightarrow> real"
  assumes "(\<Sum>i<n. u i * u i) = 0"
  shows "(\<Sum>i<n. u i * v i) = 0"
proof -
  have "\<forall>i\<in>{..<n}. u i * u i = 0"
    using assms by (subst (asm) sum_nonneg_eq_0_iff) auto
  then show ?thesis by simp
qed

lemma sum_lin2:
  fixes f g :: "nat \<Rightarrow> real"
  shows "(\<Sum>i<n. f i - c * g i) = (\<Sum>i<n. f i) - c * (\<Sum>i<n. g i)"
  by (simp add: sum_subtractf sum_distrib_left)

lemma sum_lin2':
  fixes f g :: "nat \<Rightarrow> real"
  shows "(\<Sum>i<n. d * f i + c * g i) = d * (\<Sum>i<n. f i) + c * (\<Sum>i<n. g i)"
  by (simp add: sum.distrib sum_distrib_left)

lemma closed_form_minimal:
  assumes ne: "X \<noteq> []" and len: "length y = length X"
    and cdef: "c = (if (\<Sum>i<length X. (X ! i - mean X) * (X ! i - mean X)) = 0 then 0
                   else (\<Sum>i<length X. (X ! i - mean X) * (y ! i - mean y))
                        / (\<Sum>i<length X. (X ! i - mean X) * (X ! i - mean X)))"
  shows "ssr X y (mean y - c * mean X) c \<le> ssr X y a' c'"
proof -
  let ?n = "length X"
  let ?dx = "\<lambda>i. X ! i - mean X"
  let ?dy = "\<lambda>i. y ! i - mean y"
  let ?e = "\<lambda>i. ?dy i - c * ?dx i"
  let ?u = "\<lambda>i. (a' - (mean y - c * mean X)) + (c' - c) * X ! i"
  have ne': "y \<noteq> []" using ne len by auto
  have sdx: "(\<Sum>i<?n. ?dx i) = 0" using sum_centred[OF ne] .
  have sdy: "(\<Sum>i<?n. ?dy i) = 0" using sum_centred[OF ne'] len by simp
  have se: "(\<Sum>i<?n. ?e i) = 0"
    unfolding sum_lin2 using sdx sdy by simp
  have sxy: "(\<Sum>i<?n. ?dx i * ?dy i) = c * (\<Sum>i<?n. ?dx i * ?dx i)"
  proof (cases "(\<Sum>i<?n. ?dx i * ?dx i) = 0")
    case True
    then show ?thesis using sxx_zero_sxy_zero[where n="?n" and u="?dx" and v="?dy"] by simp
  next
    case False
    then show ?thesis using cdef by simp
  qed
  have "(\<Sum>i<?n. ?e i * ?dx i) = (\<Sum>i<?n. ?dx i * ?dy i - c * (?dx i * ?dx i))"
    by (rule sum.cong) (simp_all add: algebra_simps)
  also have "\<dots> = 0" unfolding sum_lin2 using sxy by simp
  finally have sedx: "(\<Sum>i<?n. ?e i * ?dx i) = 0" .
  have "(\<Sum>i<?n. ?e i * X ! i) = (\<Sum>i<?n. 1 * (?e i * ?dx i) + mean X * ?e i)"
    by (rule sum.cong) (simp_all add: algebra_simps)
  also have "\<dots> = 0" unfolding sum_lin2' using sedx se by simp
  finally have sex: "(\<Sum>i<?n. ?e i * X ! i) = 0" .
  have "(\<Sum>i<?n. ?e i * ?u i) = (\<Sum>i<?n. (a' - (mean y - c * mean X)) * ?e i + (c' - c) * (?e i * X ! i))"
    by (rule sum.cong) (simp_all add: algebra_simps)
  also have "\<dots> = 0" unfolding sum_lin2' using se sex by simp
  finally have seu: "(\<Sum>i<?n. ?e i * ?u i) = 0" .
  have lhs: "ssr X y (mean y - c * mean X) c = (\<Sum>i<?n. (?e i)\<^sup>2)"
    unfolding ssr_def by (rule sum.cong) (simp_all add: algebra_simps)
  have "ssr X y a' c' = (\<Sum>i<?n. (?e i - 1 * ?u i)\<^sup>2)"
    unfolding ssr_def by (rule sum.cong) (simp_all add: algebra_simps)
  also have "\<dots> = (\<Sum>i<?n. (?e i)\<^sup>2) + (\<Sum>i<?n. (?u i)\<^sup>2)"
    unfolding sum_sq_shift using seu by simp
  finally have rhs: "ssr X y a' c' = (\<Sum>i<?n. (?e i)\<^sup>2) + (\<Sum>i<?n. (?u i)\<^sup>2)" .
  have "0 \<le> (\<Sum>i<?n. (?u i)\<^sup>2)" by (rule sum_nonneg) simp
  then show ?thesis using lhs rhs by linarith
qed

lemma LinearRegression_fit_least_squares: "least_squares LinearRegression_fit"
  unfolding least_squares_def
proof (intro allI impI)
  fix X y :: "real list"
  assume h: "X \<noteq> [] \<and> length y = length X"
  define c where "c = (if (\<Sum>i<length X. (X ! i - mean X) * (X ! i - mean X)) = 0 then 0
                   else (\<Sum>i<length X. (X ! i - mean X) * (y ! i - mean y))
                        / (\<Sum>i<length X. (X ! i - mean X) * (X ! i - mean X)))"
  have fit: "LinearRegression_fit LinearRegression X y = Inr \<lparr>coef = [c], intercept = mean y - c * mean X\<rparr>"
    using h by (simp add: LinearRegression_fit_def LinearRegression_def c_def Let_def)
  have "\<forall>a' c'. ssr X y (mean y - c * mean X) c \<le> ssr X y a' c'"
    using closed_form_minimal[of X y c] h c_def by blast
  then show "\<exists>model. LinearRegression_fit LinearRegression X y = Inr model \<and> length (coef model) = 1 \<and>
           (\<forall>a c. ssr X y (intercept model) (coef model ! 0) \<le> ssr X y a c)"
    using fit by simp
qed

section \<open>The stream of variates consumed by the simulator\<close>

lemma draws_Suc:
  "draws gauss (Suc n) g =
     (fst (gauss g) # fst (draws gauss n (next_state gauss g)),
      snd (draws gauss n (next_state gauss g)))"
  by (simp add: next_state_def split: prod.splits)

lemma draws_length: "length (fst (draws gauss n g)) = n"
  by (induction n arbitrary: g) (simp_all add: draws_Suc del: draws.simps(2))

lemma draws_state: "snd (draws gauss n g) = (next_state gauss ^^ n) g"
  by (induction n arbitrary: g) (simp_all add: draws_Suc funpow_swap1 del: draws.simps(2))

lemma draws_nth: "k < n \<Longrightarrow> fst (draws gauss n g) ! k = variate gauss g k"
proof (induction n arbitrary: g k)
  case 0
  then show ?case by simp
next
  case (Suc n)
  show ?case
  proof (cases k)
    case 0
    then show ?thesis by (simp add: variate_def draws_Suc del: draws.simps(2))
  next
    case (Suc k')
    with Suc.prems have "k' < n" by simp
    from Suc.IH[OF this, of "next_state gauss g"] Suc show ?thesis
      by (simp add: variate_def funpow_swap1 draws_Suc del: draws.simps(2))
  qed
qed

lemma variate_shift:
  "variate gauss ((next_state gauss ^^ n) g) k = variate gauss g (k + n)"
  by (simp add: variate_def funpow_add)

lemma draws_eq:
  "draws gauss n g = (map (variate gauss g) [0..<n], (next_state gauss ^^ n) g)"
proof -
  have "fst (draws gauss n g) = map (variate gauss g) [0..<n]"
    by (rule nth_equalityI) (simp_all add: draws_length draws_nth)
  then show ?thesis using draws_state[of gauss n g] by (simp add: prod_eq_iff)
qed

lemma cell_index_bound:
  fixes i j m n :: nat
  assumes "i < m" "j < n"
  shows "i * n + j < m * n"
proof -
  have "i * n + j < i * n + n" using assms by simp
  also have "\<dots> = Suc i * n" by simp
  also have "\<dots> \<le> m * n" using assms by (intro mult_le_mono1) simp
  finally show ?thesis .
qed

lemma simulate_Inr:
  assumes "0 \<le> N p" "0 \<le> T p"
  shows "simulate gauss p G =
     Inr (G\<lparr>rng := (next_state gauss ^^ (nat (T p) * nat (N p) + (nat (T p) + nat (N p)))) (rng G),
            beta_true := map (\<lambda>j. 1 + 0.25 * variate gauss (rng G) j) [0..<nat (N p)],
            mkt := map (\<lambda>i. 0.06 * dt p + variate gauss (rng G) (nat (N p) + i)) [0..<nat (T p)],
            data := \<lparr>nrows = nat (T p), ncols = nat (N p),
                     cells = map (\<lambda>i. map (\<lambda>j. rf p * dt p
                                  + (1 + 0.25 * variate gauss (rng G) j) * (0.06 * dt p + variate gauss (rng G) (nat (N p) + i))
                                  + s p * variate gauss (rng G) (nat (N p) + nat (T p) + i * nat (N p) + j))
                                 [0..<nat (N p)]) [0..<nat (T p)]\<rparr>\<rparr>)"
proof -
  let ?n = "nat (N p)" and ?t = "nat (T p)"
  let ?g1 = "(next_state gauss ^^ ?n) (rng G)"
  let ?g2 = "(next_state gauss ^^ (?t + ?n)) (rng G)"
  let ?zs3 = "map (variate gauss ?g2) [0..<?t * ?n]"
  have z2: "map (variate gauss ?g1) [0..<?t] = map (\<lambda>i. variate gauss (rng G) (?n + i)) [0..<?t]"
    by (simp add: variate_shift add.commute)
  have z3: "?zs3 ! (i * ?n + j) = variate gauss (rng G) (?n + ?t + i * ?n + j)"
    if "i < ?t" "j < ?n" for i j
    using cell_index_bound[OF that] by (simp add: variate_shift ac_simps)
  have cellsZ: "map (\<lambda>i. map (\<lambda>j. ?zs3 ! (i * ?n + j)) [0..<?n]) [0..<?t]
      = map (\<lambda>i. map (\<lambda>j. variate gauss (rng G) (?n + ?t + i * ?n + j)) [0..<?n]) [0..<?t]"
    using z3 by simp
  have sim: "simulate gauss p G =
     Inr (G\<lparr>rng := (next_state gauss ^^ (?t * ?n)) ?g2,
            beta_true := map (\<lambda>z. 1 + 0.25 * z) (map (variate gauss (rng G)) [0..<?n]),
            mkt := map (\<lambda>z. 0.06 * dt p + z) (map (variate gauss ?g1) [0..<?t]),
            data := \<lparr>nrows = ?t, ncols = ?n,
                     cells = map (\<lambda>i. map (\<lambda>j. rf p * dt p
                                  + map (\<lambda>z. 1 + 0.25 * z) (map (variate gauss (rng G)) [0..<?n]) ! j
                                    * map (\<lambda>z. 0.06 * dt p + z) (map (variate gauss ?g1) [0..<?t]) ! i
                                  + s p * map (\<lambda>i. map (\<lambda>j. ?zs3 ! (i * ?n + j)) [0..<?n]) [0..<?t] ! i ! j)
                                 [0..<?n]) [0..<?t]\<rparr>\<rparr>)"
    using assms
    by (simp add: simulate_def random_normal_def standard_normal_def standard_normal2_def
        draws_eq Let_def funpow_add)
  show ?thesis
    unfolding sim cellsZ z2 by (simp add: funpow_add o_def)
qed

section \<open>The estimation loops\<close>

lemma ts_loop_Inr:
  assumes "ts_loop fit js G = Inr G'"
  shows "\<exists>cs. G' = G\<lparr>b := b G @ cs\<rparr> \<and>
           list_all2 (\<lambda>i c. \<exists>y model. column (data G) i = Inr y \<and>
                              fit LinearRegression (mkt G) y = Inr model \<and> coef0 model = Inr c) js cs"
  using assms
proof (induction js arbitrary: G)
  case Nil
  then show ?case by simp
next
  case (Cons i js)
  from Cons.prems obtain y model c where
    step: "column (data G) i = Inr y" "fit LinearRegression (mkt G) y = Inr model" "coef0 model = Inr c"
    and rest: "ts_loop fit js (G\<lparr>b := b G @ [c]\<rparr>) = Inr G'"
    by (auto split: sum.splits)
  from Cons.IH[OF rest] obtain cs where
    cs: "G' = G\<lparr>b := b G @ [c] @ cs\<rparr>"
      "list_all2 (\<lambda>i c. \<exists>y model. column (data G) i = Inr y \<and>
                              fit LinearRegression (mkt G) y = Inr model \<and> coef0 model = Inr c) js cs"
    by auto
  show ?case
    by (rule exI[of _ "c # cs"]) (use cs step in simp)
qed

lemma ts_loop_succeeds:
  assumes "\<forall>i\<in>set js. \<exists>y model c. column (data G) i = Inr y \<and>
             fit LinearRegression (mkt G) y = Inr model \<and> coef0 model = Inr c"
  shows "\<exists>G'. ts_loop fit js G = Inr G'"
  using assms
proof (induction js arbitrary: G)
  case Nil
  then show ?case by simp
next
  case (Cons i js)
  from Cons.prems obtain y model c where
    step: "column (data G) i = Inr y" "fit LinearRegression (mkt G) y = Inr model" "coef0 model = Inr c"
    by auto
  have "\<forall>i\<in>set js. \<exists>y model c'. column (data (G\<lparr>b := b G @ [c]\<rparr>)) i = Inr y \<and>
             fit LinearRegression (mkt (G\<lparr>b := b G @ [c]\<rparr>)) y = Inr model \<and> coef0 model = Inr c'"
    using Cons.prems by simp
  from Cons.IH[OF this] show ?case using step by simp
qed

lemma cs_loop_Inr:
  assumes "cs_loop fit js G = Inr G'"
  shows "\<exists>cs. G' = G\<lparr>res := res G @ cs\<rparr> \<and>
           list_all2 (\<lambda>i c. \<exists>y model. row_at (data G) i = Inr y \<and>
                              fit LinearRegression (b G) y = Inr model \<and> coef0 model = Inr c) js cs"
  using assms
proof (induction js arbitrary: G)
  case Nil
  then show ?case by simp
next
  case (Cons i js)
  from Cons.prems obtain y model c where
    step: "row_at (data G) i = Inr y" "fit LinearRegression (b G) y = Inr model" "coef0 model = Inr c"
    and rest: "cs_loop fit js (G\<lparr>res := res G @ [c]\<rparr>) = Inr G'"
    by (auto split: sum.splits)
  from Cons.IH[OF rest] obtain cs where
    cs: "G' = G\<lparr>res := res G @ [c] @ cs\<rparr>"
      "list_all2 (\<lambda>i c. \<exists>y model. row_at (data G) i = Inr y \<and>
                              fit LinearRegression (b G) y = Inr model \<and> coef0 model = Inr c) js cs"
    by auto
  show ?case
    by (rule exI[of _ "c # cs"]) (use cs step in simp)
qed

lemma cs_loop_succeeds:
  assumes "\<forall>i\<in>set js. \<exists>y model c. row_at (data G) i = Inr y \<and>
             fit LinearRegression (b G) y = Inr model \<and> coef0 model = Inr c"
  shows "\<exists>G'. cs_loop fit js G = Inr G'"
  using assms
proof (induction js arbitrary: G)
  case Nil
  then show ?case by simp
next
  case (Cons i js)
  from Cons.prems obtain y model c where
    step: "row_at (data G) i = Inr y" "fit LinearRegression (b G) y = Inr model" "coef0 model = Inr c"
    by auto
  have "\<forall>i\<in>set js. \<exists>y model c'. row_at (data (G\<lparr>res := res G @ [c]\<rparr>)) i = Inr y \<and>
             fit LinearRegression (b (G\<lparr>res := res G @ [c]\<rparr>)) y = Inr model \<and> coef0 model = Inr c'"
    using Cons.prems by simp
  from Cons.IH[OF this] show ?case using step by simp
qed

lemma least_squares_slope:
  assumes ls: "least_squares fit" and len: "length y = length X" and nondeg: "var X \<noteq> 0"
  shows "\<exists>model. fit LinearRegression X y = Inr model \<and> coef0 model = Inr (cov X y / var X)"
proof -
  from nondeg have "X \<noteq> []" by (auto simp: var_def cov_def)
  with ls len obtain model where m: "fit LinearRegression X y = Inr model" "length (coef model) = 1"
    "\<And>a c. ssr X y (intercept model) (coef model ! 0) \<le> ssr X y a c"
    unfolding least_squares_def by blast
  from m(2) obtain c where c: "coef model = [c]" by (cases "coef model") auto
  have "c = cov X y / var X"
    using ols_slope_closed_form[OF len _ nondeg, of "intercept model" c] m(3) c by simp
  then show ?thesis using m(1) c by (simp add: coef0_def)
qed

lemma well_shaped_row: "well_shaped A \<Longrightarrow> i < nrows A \<Longrightarrow> length (cells A ! i) = ncols A"
  by (simp add: well_shaped_def list_all_length)

lemma time_series_frame:
  assumes "time_series fit p G = Inr G1"
  shows "rng G1 = rng G \<and> beta_true G1 = beta_true G \<and> mkt G1 = mkt G \<and> data G1 = data G
         \<and> res G1 = res G"
  using ts_loop_Inr[OF assms[unfolded time_series_def]] by auto

lemma cross_sectional_frame:
  assumes "cross_sectional fit p G1 = Inr G2"
  shows "rng G2 = rng G1 \<and> beta_true G2 = beta_true G1 \<and> mkt G2 = mkt G1 \<and> data G2 = data G1
         \<and> b G2 = b G1 \<and> length (res G2) = nat (T p) \<and>
         (\<forall>i<nat (T p). \<exists>y model. row_at (data G1) i = Inr y \<and>
             fit LinearRegression (b G1) y = Inr model \<and> coef0 model = Inr (res G2 ! i))"
proof -
  from cs_loop_Inr[OF assms[unfolded cross_sectional_def]] obtain cs where
    cs: "G2 = G1\<lparr>res := cs\<rparr>"
      "list_all2 (\<lambda>i c. \<exists>y model. row_at (data G1) i = Inr y \<and>
           fit LinearRegression (b G1) y = Inr model \<and> coef0 model = Inr c) [0..<nat (T p)] cs"
    by auto
  have "length cs = nat (T p)" using list_all2_lengthD[OF cs(2)] by simp
  moreover have "\<exists>y model. row_at (data G1) i = Inr y \<and>
           fit LinearRegression (b G1) y = Inr model \<and> coef0 model = Inr (cs ! i)"
    if "i < nat (T p)" for i
    using list_all2_nthD[OF cs(2), of i] that by simp
  ultimately show ?thesis using cs(1) by simp
qed

lemma ts_loop_slope_only:
  assumes "\<And>X y. (case fit1 LinearRegression X y of Inl e \<Rightarrow> Inl e | Inr model \<Rightarrow> coef0 model)
               = (case fit2 LinearRegression X y of Inl e \<Rightarrow> Inl e | Inr model \<Rightarrow> coef0 model)"
  shows "ts_loop fit1 js G = ts_loop fit2 js G"
proof (induction js arbitrary: G)
  case Nil
  then show ?case by simp
next
  case (Cons i js)
  show ?case
  proof (cases "column (data G) i")
    case (Inl e)
    then show ?thesis by simp
  next
    case (Inr y)
    from assms[of "mkt G" y] Cons.IH show ?thesis
      using Inr by (auto split: sum.splits)
  qed
qed

lemma cs_loop_slope_only:
  assumes "\<And>X y. (case fit1 LinearRegression X y of Inl e \<Rightarrow> Inl e | Inr model \<Rightarrow> coef0 model)
               = (case fit2 LinearRegression X y of Inl e \<Rightarrow> Inl e | Inr model \<Rightarrow> coef0 model)"
  shows "cs_loop fit1 js G = cs_loop fit2 js G"
proof (induction js arbitrary: G)
  case Nil
  then show ?case by simp
next
  case (Cons i js)
  show ?case
  proof (cases "row_at (data G) i")
    case (Inl e)
    then show ?thesis by simp
  next
    case (Inr y)
    from assms[of "b G" y] Cons.IH show ?thesis
      using Inr by (auto split: sum.splits)
  qed
qed

lemma ts_loop_Inl:
  assumes "ts_loop fit js G = Inl e"
  shows "\<exists>i\<in>set js. column (data G) i = Inl e \<or>
           (\<exists>y. column (data G) i = Inr y \<and>
              (fit LinearRegression (mkt G) y = Inl e \<or>
               (\<exists>model. fit LinearRegression (mkt G) y = Inr model \<and> coef0 model = Inl e)))"
  using assms
proof (induction js arbitrary: G)
  case Nil
  then show ?case by simp
next
  case (Cons i js)
  show ?case
  proof (cases "column (data G) i")
    case (Inl e')
    with Cons.prems show ?thesis by simp
  next
    case col: (Inr y)
    show ?thesis
    proof (cases "fit LinearRegression (mkt G) y")
      case (Inl e')
      with Cons.prems col show ?thesis by simp
    next
      case fitted: (Inr model)
      show ?thesis
      proof (cases "coef0 model")
        case (Inl e')
        with Cons.prems col fitted show ?thesis by simp
      next
        case (Inr c)
        with Cons.prems col fitted have "ts_loop fit js (G\<lparr>b := b G @ [c]\<rparr>) = Inl e" by simp
        from Cons.IH[OF this] show ?thesis by simp
      qed
    qed
  qed
qed

lemma cs_loop_Inl:
  assumes "cs_loop fit js G = Inl e"
  shows "\<exists>i\<in>set js. row_at (data G) i = Inl e \<or>
           (\<exists>y. row_at (data G) i = Inr y \<and>
              (fit LinearRegression (b G) y = Inl e \<or>
               (\<exists>model. fit LinearRegression (b G) y = Inr model \<and> coef0 model = Inl e)))"
  using assms
proof (induction js arbitrary: G)
  case Nil
  then show ?case by simp
next
  case (Cons i js)
  show ?case
  proof (cases "row_at (data G) i")
    case (Inl e')
    with Cons.prems show ?thesis by simp
  next
    case row: (Inr y)
    show ?thesis
    proof (cases "fit LinearRegression (b G) y")
      case (Inl e')
      with Cons.prems row show ?thesis by simp
    next
      case fitted: (Inr model)
      show ?thesis
      proof (cases "coef0 model")
        case (Inl e')
        with Cons.prems row fitted show ?thesis by simp
      next
        case (Inr c)
        with Cons.prems row fitted have "cs_loop fit js (G\<lparr>res := res G @ [c]\<rparr>) = Inl e" by simp
        from Cons.IH[OF this] show ?thesis by simp
      qed
    qed
  qed
qed

lemma time_series_result:
  assumes "time_series fit p G = Inr G'"
  shows "G' = G\<lparr>b := b G'\<rparr> \<and> length (b G') = nat (N p) \<and>
         (\<forall>j<nat (N p). \<exists>y model. column (data G) j = Inr y \<and>
             fit LinearRegression (mkt G) y = Inr model \<and> coef0 model = Inr (b G' ! j))"
proof -
  from ts_loop_Inr[OF assms[unfolded time_series_def]] obtain cs where
    cs: "G' = G\<lparr>b := cs\<rparr>"
      "list_all2 (\<lambda>i c. \<exists>y model. column (data G) i = Inr y \<and>
           fit LinearRegression (mkt G) y = Inr model \<and> coef0 model = Inr c) [0..<nat (N p)] cs"
    by auto
  have "length cs = nat (N p)" using list_all2_lengthD[OF cs(2)] by simp
  moreover have "\<exists>y model. column (data G) j = Inr y \<and>
           fit LinearRegression (mkt G) y = Inr model \<and> coef0 model = Inr (cs ! j)"
    if "j < nat (N p)" for j
    using list_all2_nthD[OF cs(2), of j] that by simp
  ultimately show ?thesis using cs(1) by simp
qed

lemma cross_sectional_result:
  assumes "cross_sectional fit p G = Inr G'"
  shows "G' = G\<lparr>res := res G'\<rparr>"
  using cs_loop_Inr[OF assms[unfolded cross_sectional_def]] by auto

lemma coef0_Inr: "coef0 model = Inr c \<longleftrightarrow> (\<exists>cs. coef model = c # cs)"
  by (cases "coef model") (auto simp: coef0_def)

section \<open>Further facts about the simulator and the summary\<close>

lemma simulate_Inl:
  assumes "N p < 0 \<or> T p < 0"
  shows "simulate gauss p G = Inl ValueError"
  using assms
  by (auto simp: simulate_def random_normal_def standard_normal_def standard_normal2_def
      split: prod.splits)

lemma cell_index_inj:
  fixes i j i' j' n :: nat
  assumes "j < n" "j' < n" "i * n + j = i' * n + j'"
  shows "i = i' \<and> j = j'"
proof -
  have "\<not> i < i'" using cell_index_bound[of i i' j n] assms by auto
  moreover have "\<not> i' < i" using cell_index_bound[of i' i j' n] assms by auto
  ultimately have "i = i'" by simp
  with assms(3) show ?thesis by simp
qed

lemma sum_list_map_nth:
  fixes f :: "real \<Rightarrow> real"
  shows "sum_list (map f xs) = (\<Sum>i<length xs. f (xs ! i))"
proof -
  have "sum_list (map f xs) = (\<Sum>i<length (map f xs). map f xs ! i)"
    by (rule sum_list_nth)
  also have "\<dots> = (\<Sum>i<length xs. f (xs ! i))"
    by (rule sum.cong) simp_all
  finally show ?thesis .
qed

section \<open>A worked panel: three periods, two assets\<close>

text \<open>
  The factor series \<open>[0, 1, 2]\<close> and the panel with rows \<open>[1, 2]\<close>, \<open>[3, 6]\<close>, \<open>[5, 10]\<close>:
  the asset columns have slopes 2 and 4 (with intercepts 1 and 2) on the factor, and the
  three rows have slopes 1/2, 3/2 and 5/2 on the vector \<open>[2, 4]\<close>.
\<close>

lemma fit_worked_columns:
  "LinearRegression_fit LinearRegression [0, 1, 2] [1, 3, 5] = Inr \<lparr>coef = [2], intercept = 1\<rparr>"
  "LinearRegression_fit LinearRegression [0, 1, 2] [2, 6, 10] = Inr \<lparr>coef = [4], intercept = 2\<rparr>"
  by (simp_all add: LinearRegression_fit_def LinearRegression_def mean_def Let_def
      eval_nat_numeral lessThan_Suc)

lemma fit_worked_rows:
  "LinearRegression_fit LinearRegression [2, 4] [1, 2] = Inr \<lparr>coef = [1 / 2], intercept = 0\<rparr>"
  "LinearRegression_fit LinearRegression [2, 4] [3, 6] = Inr \<lparr>coef = [3 / 2], intercept = 0\<rparr>"
  "LinearRegression_fit LinearRegression [2, 4] [5, 10] = Inr \<lparr>coef = [5 / 2], intercept = 0\<rparr>"
  by (simp_all add: LinearRegression_fit_def LinearRegression_def mean_def Let_def
      eval_nat_numeral lessThan_Suc)

lemma time_series_worked:
  "time_series LinearRegression_fit \<lparr>rf = 0, N = 2, T = 3, dt = 1, s = 1\<rparr>
      \<lparr>rng = (0::nat), beta_true = [], mkt = [0, 1, 2],
       data = \<lparr>nrows = 3, ncols = 2, cells = [[1, 2], [3, 6], [5, 10]]\<rparr>, b = [], res = []\<rparr>
   = Inr \<lparr>rng = (0::nat), beta_true = [], mkt = [0, 1, 2],
          data = \<lparr>nrows = 3, ncols = 2, cells = [[1, 2], [3, 6], [5, 10]]\<rparr>,
          b = [2, 4], res = []\<rparr>"
  by (simp add: time_series_def column_def coef0_def fit_worked_columns eval_nat_numeral upt_rec)

lemma cross_sectional_worked:
  "cross_sectional LinearRegression_fit \<lparr>rf = 0, N = 2, T = 3, dt = 1, s = 1\<rparr>
      \<lparr>rng = (0::nat), beta_true = [], mkt = [0, 1, 2],
       data = \<lparr>nrows = 3, ncols = 2, cells = [[1, 2], [3, 6], [5, 10]]\<rparr>,
       b = [2, 4], res = []\<rparr>
   = Inr \<lparr>rng = (0::nat), beta_true = [], mkt = [0, 1, 2],
          data = \<lparr>nrows = 3, ncols = 2, cells = [[1, 2], [3, 6], [5, 10]]\<rparr>,
          b = [2, 4], res = [1 / 2, 3 / 2, 5 / 2]\<rparr>"
  by (simp add: cross_sectional_def row_at_def coef0_def fit_worked_rows eval_nat_numeral upt_rec)

section \<open>Verified claims\<close>

text \<open>
  C1. With a least-squares solver (intercept included), a well-shaped \<open>T \<times> N\<close> return
  panel whose row count is the length of the factor series, and a factor series of
  non-zero variance, the Time-Series Estimator returns exactly \<open>N\<close> slopes in asset order,
  and the \<open>j\<close>-th is the covariance of the factor with asset \<open>j\<close>'s return column divided
  by the variance of the factor.
\<close>

theorem time_series_slopes:
  assumes ls: "least_squares fit"
    and shape: "well_shaped (data G)" "ncols (data G) = nat (N p)" "nrows (data G) = length (mkt G)"
    and nondeg: "var (mkt G) \<noteq> 0"
  shows "\<exists>G'. time_series fit p G = Inr G' \<and> length (b G') = nat (N p) \<and>
           (\<forall>j<nat (N p). b G' ! j
               = cov (mkt G) (map (\<lambda>r. r ! j) (cells (data G))) / var (mkt G))"
proof -
  let ?G0 = "G\<lparr>b := []\<rparr>"
  let ?col = "\<lambda>j. map (\<lambda>r. r ! j) (cells (data G))"
  have lencol: "length (?col j) = length (mkt G)" for j
    using shape by (simp add: well_shaped_def)
  have step: "\<exists>model. fit LinearRegression (mkt G) (?col j) = Inr model \<and>
                coef0 model = Inr (cov (mkt G) (?col j) / var (mkt G))" for j
    using least_squares_slope[OF ls lencol nondeg] .
  have "\<forall>i\<in>set [0..<nat (N p)]. \<exists>y model c. column (data ?G0) i = Inr y \<and>
             fit LinearRegression (mkt ?G0) y = Inr model \<and> coef0 model = Inr c"
  proof
    fix i assume "i \<in> set [0..<nat (N p)]"
    then have "column (data ?G0) i = Inr (?col i)" using shape by (simp add: column_def)
    moreover have "mkt ?G0 = mkt G" by simp
    ultimately show "\<exists>y model c. column (data ?G0) i = Inr y \<and>
             fit LinearRegression (mkt ?G0) y = Inr model \<and> coef0 model = Inr c"
      using step[of i] by metis
  qed
  then have "\<exists>G'. ts_loop fit [0..<nat (N p)] ?G0 = Inr G'"
    by (rule ts_loop_succeeds[where fit = fit and G = "?G0" and js = "[0..<nat (N p)]"])
  then obtain G' where run: "ts_loop fit [0..<nat (N p)] ?G0 = Inr G'"
    by blast
  from ts_loop_Inr[OF run] obtain cs where
    cs: "G' = ?G0\<lparr>b := b ?G0 @ cs\<rparr>"
      "list_all2 (\<lambda>i c. \<exists>y model. column (data ?G0) i = Inr y \<and>
           fit LinearRegression (mkt ?G0) y = Inr model \<and> coef0 model = Inr c) [0..<nat (N p)] cs"
    by blast
  have bG': "b G' = cs" using cs(1) by simp
  have lcs: "length cs = nat (N p)" using list_all2_lengthD[OF cs(2)] by simp
  have "cs ! j = cov (mkt G) (?col j) / var (mkt G)" if "j < nat (N p)" for j
  proof -
    from list_all2_nthD[OF cs(2), of j] that obtain y model where
      ym: "column (data G) j = Inr y" "fit LinearRegression (mkt G) y = Inr model"
        "coef0 model = Inr (cs ! j)"
      by auto
    from ym(1) that shape have "y = ?col j" by (simp add: column_def)
    with ym step[of j] show ?thesis by auto
  qed
  then show ?thesis
    using run bG' lcs by (simp add: time_series_def)
qed

theorem time_series_slopes_witness:
  "least_squares LinearRegression_fit \<and>
   well_shaped \<lparr>nrows = 2, ncols = 1, cells = [[1], [3]]\<rparr> \<and>
   var [0, 1] \<noteq> 0 \<and>
   (\<exists>G'. time_series LinearRegression_fit \<lparr>rf = 0, N = 1, T = 2, dt = 1, s = 1\<rparr>
            \<lparr>rng = (0::nat), beta_true = [], mkt = [0, 1],
             data = \<lparr>nrows = 2, ncols = 1, cells = [[1], [3]]\<rparr>, b = [], res = []\<rparr> = Inr G' \<and>
          length (b G') = 1 \<and> b G' ! 0 = cov [0, 1] [1, 3] / var [0, 1])"
proof -
  let ?p = "\<lparr>rf = 0, N = 1, T = 2, dt = 1, s = 1\<rparr>"
  let ?G = "\<lparr>rng = (0::nat), beta_true = [], mkt = [0, 1],
             data = \<lparr>nrows = 2, ncols = 1, cells = [[1], [3]]\<rparr>, b = [], res = []\<rparr>"
  have ls: "least_squares LinearRegression_fit" by (rule LinearRegression_fit_least_squares)
  have ws: "well_shaped \<lparr>nrows = 2, ncols = 1, cells = [[1], [3]]\<rparr>"
    by (simp add: well_shaped_def)
  have nz: "var [0, 1] \<noteq> 0"
    by (simp add: var_def cov_def mean_def eval_nat_numeral lessThan_Suc)
  have "\<exists>G'. time_series LinearRegression_fit ?p ?G = Inr G' \<and> length (b G') = nat (N ?p) \<and>
           (\<forall>j<nat (N ?p). b G' ! j
               = cov (mkt ?G) (map (\<lambda>r. r ! j) (cells (data ?G))) / var (mkt ?G))"
    by (rule time_series_slopes) (use ls ws nz in simp_all)
  then show ?thesis using ls ws nz by auto
qed

text \<open>
  C2. With a least-squares solver (intercept included), a well-shaped \<open>T \<times> N\<close> return
  panel and an \<open>N\<close>-length estimated-sensitivity vector of non-zero variance, the
  Cross-Sectional Estimator returns exactly \<open>T\<close> premium estimates in period order, and
  the \<open>i\<close>-th is the covariance of the sensitivity vector with the period-\<open>i\<close>
  cross-section of returns divided by the variance of the sensitivity vector. The same
  vector \<open>b\<close> is the regressor of every period.
\<close>

theorem cross_sectional_slopes:
  assumes ls: "least_squares fit"
    and shape: "well_shaped (data G)" "nrows (data G) = nat (T p)" "ncols (data G) = length (b G)"
    and nondeg: "var (b G) \<noteq> 0"
  shows "\<exists>G'. cross_sectional fit p G = Inr G' \<and> length (res G') = nat (T p) \<and>
           (\<forall>i<nat (T p). res G' ! i = cov (b G) (cells (data G) ! i) / var (b G))"
proof -
  let ?G0 = "G\<lparr>res := []\<rparr>"
  let ?row = "\<lambda>i. cells (data G) ! i"
  have step: "\<exists>model. fit LinearRegression (b G) (?row i) = Inr model \<and>
                coef0 model = Inr (cov (b G) (?row i) / var (b G))" if "i < nat (T p)" for i
  proof -
    have "length (?row i) = length (b G)"
      using well_shaped_row[OF shape(1), of i] that shape by simp
    from least_squares_slope[OF ls this nondeg] show ?thesis .
  qed
  have "\<forall>i\<in>set [0..<nat (T p)]. \<exists>y model c. row_at (data ?G0) i = Inr y \<and>
             fit LinearRegression (b ?G0) y = Inr model \<and> coef0 model = Inr c"
  proof
    fix i assume i: "i \<in> set [0..<nat (T p)]"
    then have "row_at (data ?G0) i = Inr (?row i)" using shape by (simp add: row_at_def)
    moreover have "b ?G0 = b G" by simp
    ultimately show "\<exists>y model c. row_at (data ?G0) i = Inr y \<and>
             fit LinearRegression (b ?G0) y = Inr model \<and> coef0 model = Inr c"
      using step[of i] i by (metis atLeastLessThan_iff set_upt)
  qed
  then have "\<exists>G'. cs_loop fit [0..<nat (T p)] ?G0 = Inr G'"
    by (rule cs_loop_succeeds[where fit = fit and G = "?G0" and js = "[0..<nat (T p)]"])
  then obtain G' where run: "cs_loop fit [0..<nat (T p)] ?G0 = Inr G'"
    by blast
  from cs_loop_Inr[OF run] obtain cs where
    cs: "G' = ?G0\<lparr>res := res ?G0 @ cs\<rparr>"
      "list_all2 (\<lambda>i c. \<exists>y model. row_at (data ?G0) i = Inr y \<and>
           fit LinearRegression (b ?G0) y = Inr model \<and> coef0 model = Inr c) [0..<nat (T p)] cs"
    by blast
  have rG': "res G' = cs" using cs(1) by simp
  have lcs: "length cs = nat (T p)" using list_all2_lengthD[OF cs(2)] by simp
  have "cs ! i = cov (b G) (?row i) / var (b G)" if "i < nat (T p)" for i
  proof -
    from list_all2_nthD[OF cs(2), of i] that obtain y model where
      ym: "row_at (data G) i = Inr y" "fit LinearRegression (b G) y = Inr model"
        "coef0 model = Inr (cs ! i)"
      by auto
    from ym(1) that shape have "y = ?row i" by (simp add: row_at_def)
    with ym step[OF that] show ?thesis by auto
  qed
  then show ?thesis
    using run rG' lcs by (simp add: cross_sectional_def)
qed

theorem cross_sectional_slopes_witness:
  "least_squares LinearRegression_fit \<and>
   well_shaped \<lparr>nrows = 1, ncols = 2, cells = [[1, 3]]\<rparr> \<and>
   var [0, 1] \<noteq> 0 \<and>
   (\<exists>G'. cross_sectional LinearRegression_fit \<lparr>rf = 0, N = 2, T = 1, dt = 1, s = 1\<rparr>
            \<lparr>rng = (0::nat), beta_true = [], mkt = [5],
             data = \<lparr>nrows = 1, ncols = 2, cells = [[1, 3]]\<rparr>, b = [0, 1], res = []\<rparr> = Inr G' \<and>
          length (res G') = 1 \<and> res G' ! 0 = cov [0, 1] [1, 3] / var [0, 1])"
proof -
  let ?p = "\<lparr>rf = 0, N = 2, T = 1, dt = 1, s = 1\<rparr>"
  let ?G = "\<lparr>rng = (0::nat), beta_true = [], mkt = [5],
             data = \<lparr>nrows = 1, ncols = 2, cells = [[1, 3]]\<rparr>, b = [0, 1], res = []\<rparr>"
  have ls: "least_squares LinearRegression_fit" by (rule LinearRegression_fit_least_squares)
  have ws: "well_shaped \<lparr>nrows = 1, ncols = 2, cells = [[1, 3]]\<rparr>"
    by (simp add: well_shaped_def)
  have nz: "var [0, 1] \<noteq> 0"
    by (simp add: var_def cov_def mean_def eval_nat_numeral lessThan_Suc)
  have "\<exists>G'. cross_sectional LinearRegression_fit ?p ?G = Inr G' \<and> length (res G') = nat (T ?p) \<and>
           (\<forall>i<nat (T ?p). res G' ! i = cov (b ?G) (cells (data ?G) ! i) / var (b ?G))"
    by (rule cross_sectional_slopes) (use ls ws nz in simp_all)
  then show ?thesis using ls ws nz by auto
qed

text \<open>
  C3. For \<open>T \<ge> 2\<close> and a \<open>T\<close>-length sequence of period estimates with non-zero spread, the
  summary uses the sample mean (the sum over the \<open>T\<close> periods divided by \<open>T\<close>) and the
  sample standard deviation (non-negative, its square the sum of squared deviations
  divided by \<open>T - 1\<close>); the standard error is that deviation divided by \<open>sqrt T\<close>, the
  t-statistic is the mean divided by the standard error, and the p-value is the survival
  function of Student's distribution with \<open>T\<close> degrees of freedom at the t-statistic.
\<close>

theorem summary_statistics:
  assumes T2: "2 \<le> T p" and len: "length (res G) = nat (T p)"
    and spread: "DataFrame_std (res G) \<noteq> 0"
  shows "DataFrame_mean (res G) = (\<Sum>i<nat (T p). res G ! i) / real_of_int (T p) \<and>
         0 \<le> DataFrame_std (res G) \<and>
         (DataFrame_std (res G))\<^sup>2
           = (\<Sum>i<nat (T p). (res G ! i - DataFrame_mean (res G))\<^sup>2) / (real_of_int (T p) - 1) \<and>
         se (summarize sf p G) = DataFrame_std (res G) / sqrt (real_of_int (T p)) \<and>
         se (summarize sf p G) \<noteq> 0 \<and>
         t_score (summarize sf p G) = DataFrame_mean (res G) / se (summarize sf p G) \<and>
         p_value (summarize sf p G) = sf (t_score (summarize sf p G)) (real_of_int (T p))"
proof -
  have n: "real (length (res G)) = real_of_int (T p)" using T2 len by simp
  have m: "DataFrame_mean (res G) = (\<Sum>i<nat (T p). res G ! i) / real_of_int (T p)"
    unfolding DataFrame_mean_def n by (simp add: sum_list_nth len)
  let ?v = "(\<Sum>i<nat (T p). (res G ! i - DataFrame_mean (res G))\<^sup>2) / (real_of_int (T p) - 1)"
  have std: "DataFrame_std (res G) = sqrt ?v"
    unfolding DataFrame_std_def n by (simp add: sum_list_map_nth len)
  have "0 \<le> (\<Sum>i<nat (T p). (res G ! i - DataFrame_mean (res G))\<^sup>2)"
    by (rule sum_nonneg) simp
  then have v0: "0 \<le> ?v" using T2 by simp
  have s0: "0 \<le> DataFrame_std (res G)" unfolding std using v0 by simp
  have s2: "(DataFrame_std (res G))\<^sup>2 = ?v" unfolding std using v0 by simp
  have sq: "sqrt (real_of_int (T p)) \<noteq> 0" using T2 by simp
  have se1: "se (summarize sf p G) = DataFrame_std (res G) / sqrt (real_of_int (T p))"
    by (simp add: summarize_def Let_def)
  have se0: "se (summarize sf p G) \<noteq> 0" unfolding se1 using spread sq by simp
  have t1: "t_score (summarize sf p G) = DataFrame_mean (res G) / se (summarize sf p G)"
    by (simp add: summarize_def Let_def)
  have p1: "p_value (summarize sf p G) = sf (t_score (summarize sf p G)) (real_of_int (T p))"
    by (simp add: summarize_def Let_def)
  from m s0 s2 se1 se0 t1 p1 show ?thesis by blast
qed

theorem summary_statistics_witness:
  "(2::int) \<le> 2 \<and> DataFrame_std [0, 2] \<noteq> 0 \<and> DataFrame_mean [0, 2] = 1 \<and>
   (DataFrame_std [0, 2])\<^sup>2 = 2 \<and>
   se (summarize (\<lambda>x df. 1 / 2) \<lparr>rf = 0, N = 1, T = 2, dt = 1, s = 1\<rparr>
        \<lparr>rng = (0::nat), beta_true = [], mkt = [],
         data = \<lparr>nrows = 0, ncols = 0, cells = []\<rparr>, b = [], res = [0, 2]\<rparr>)
     = DataFrame_std [0, 2] / sqrt 2"
proof -
  let ?p = "\<lparr>rf = 0, N = 1, T = 2, dt = 1, s = 1\<rparr>"
  let ?G = "\<lparr>rng = (0::nat), beta_true = [], mkt = [],
         data = \<lparr>nrows = 0, ncols = 0, cells = []\<rparr>, b = [], res = [0, 2]\<rparr>"
  have m: "DataFrame_mean [0, 2] = 1" by (simp add: DataFrame_mean_def)
  have sd: "DataFrame_std [0, 2] = sqrt 2" by (simp add: DataFrame_std_def m)
  have h: "2 \<le> T ?p" "length (res ?G) = nat (T ?p)" "DataFrame_std (res ?G) \<noteq> 0"
    by (simp_all add: sd)
  from summary_statistics[OF h, of "\<lambda>x df. 1 / 2"] m sd
  show ?thesis by (simp add: eval_nat_numeral lessThan_Suc)
qed

text \<open>
  C4. For \<open>N > 0\<close>, \<open>T > 0\<close> and a non-negative residual scale the Market Simulator
  returns: \<open>N\<close> true sensitivities, the \<open>j\<close>-th being \<open>1 + 0.25\<close> times variate \<open>j\<close> of the
  generator's stream; a \<open>T\<close>-length factor series, entry \<open>i\<close> being the factor mean
  \<open>0.06 * dt\<close> plus variate \<open>N + i\<close>; and a well-shaped \<open>T \<times> N\<close> panel whose cell \<open>(i, j)\<close>
  is \<open>rf * dt + beta_true[j] * mkt[i]\<close> plus the residual scale times variate
  \<open>N + T + i * N + j\<close>. Distinct cells consume distinct variates. That the variates are
  standard normal is the contract of the random source.
\<close>

theorem simulator_output:
  assumes "0 < N p" "0 < T p" "0 \<le> s p"
  shows "\<exists>G'. simulate gauss p G = Inr G' \<and>
           length (beta_true G') = nat (N p) \<and>
           (\<forall>j<nat (N p). beta_true G' ! j = 1 + 0.25 * variate gauss (rng G) j) \<and>
           length (mkt G') = nat (T p) \<and>
           (\<forall>i<nat (T p). mkt G' ! i = 0.06 * dt p + variate gauss (rng G) (nat (N p) + i)) \<and>
           well_shaped (data G') \<and> nrows (data G') = nat (T p) \<and> ncols (data G') = nat (N p) \<and>
           (\<forall>i<nat (T p). \<forall>j<nat (N p).
              cells (data G') ! i ! j
                = rf p * dt p + beta_true G' ! j * mkt G' ! i
                  + s p * variate gauss (rng G) (nat (N p) + nat (T p) + i * nat (N p) + j)) \<and>
           (\<forall>i j i' j'. j < nat (N p) \<and> j' < nat (N p) \<and> i * nat (N p) + j = i' * nat (N p) + j'
              \<longrightarrow> i = i' \<and> j = j')"
proof -
  have nn: "0 \<le> N p" "0 \<le> T p" using assms by simp_all
  obtain G' where run: "simulate gauss p G = Inr G'"
    and bt: "beta_true G' = map (\<lambda>j. 1 + 0.25 * variate gauss (rng G) j) [0..<nat (N p)]"
    and mk: "mkt G' = map (\<lambda>i. 0.06 * dt p + variate gauss (rng G) (nat (N p) + i)) [0..<nat (T p)]"
    and da: "data G' = \<lparr>nrows = nat (T p), ncols = nat (N p),
                     cells = map (\<lambda>i. map (\<lambda>j. rf p * dt p
                                  + (1 + 0.25 * variate gauss (rng G) j) * (0.06 * dt p + variate gauss (rng G) (nat (N p) + i))
                                  + s p * variate gauss (rng G) (nat (N p) + nat (T p) + i * nat (N p) + j))
                                 [0..<nat (N p)]) [0..<nat (T p)]\<rparr>"
    using simulate_Inr[OF nn, of gauss G] by simp
  have c1: "length (beta_true G') = nat (N p)" by (simp add: bt)
  have c2: "\<forall>j<nat (N p). beta_true G' ! j = 1 + 0.25 * variate gauss (rng G) j" by (simp add: bt)
  have c3: "length (mkt G') = nat (T p)" by (simp add: mk)
  have c4: "\<forall>i<nat (T p). mkt G' ! i = 0.06 * dt p + variate gauss (rng G) (nat (N p) + i)"
    by (simp add: mk)
  have c5: "well_shaped (data G')" by (simp add: da well_shaped_def list_all_iff)
  have c6: "nrows (data G') = nat (T p)" "ncols (data G') = nat (N p)" by (simp_all add: da)
  have c7: "\<forall>i<nat (T p). \<forall>j<nat (N p).
              cells (data G') ! i ! j
                = rf p * dt p + beta_true G' ! j * mkt G' ! i
                  + s p * variate gauss (rng G) (nat (N p) + nat (T p) + i * nat (N p) + j)"
    by (simp add: da bt mk)
  have c8: "\<forall>i j i' j'. j < nat (N p) \<and> j' < nat (N p) \<and> i * nat (N p) + j = i' * nat (N p) + j'
              \<longrightarrow> i = i' \<and> j = j'"
    using cell_index_inj by blast
  from run c1 c2 c3 c4 c5 c6 c7 c8 show ?thesis by blast
qed

theorem simulator_output_witness:
  "0 < N notebook_params \<and> 0 < T notebook_params \<and> 0 \<le> s notebook_params \<and>
   (\<exists>G'. simulate (\<lambda>g::nat. (real g, Suc g)) notebook_params
            \<lparr>rng = 0, beta_true = [], mkt = [], data = \<lparr>nrows = 0, ncols = 0, cells = []\<rparr>,
             b = [], res = []\<rparr> = Inr G' \<and>
          length (beta_true G') = 2000 \<and> length (mkt G') = 2520 \<and> well_shaped (data G') \<and>
          nrows (data G') = 2520 \<and> ncols (data G') = 2000)"
proof -
  let ?G = "\<lparr>rng = (0::nat), beta_true = [], mkt = [], data = \<lparr>nrows = 0, ncols = 0, cells = []\<rparr>,
             b = [], res = []\<rparr>"
  have h: "0 < N notebook_params" "0 < T notebook_params" "0 \<le> s notebook_params"
    by (simp_all add: notebook_params_def)
  have n: "nat (N notebook_params) = 2000" "nat (T notebook_params) = 2520"
    by (simp_all add: notebook_params_def)
  from simulator_output[OF h, of "\<lambda>g::nat. (real g, Suc g)" ?G] obtain G' where
    "simulate (\<lambda>g::nat. (real g, Suc g)) notebook_params ?G = Inr G'"
    "length (beta_true G') = nat (N notebook_params)" "length (mkt G') = nat (T notebook_params)"
    "well_shaped (data G')" "nrows (data G') = nat (T notebook_params)"
    "ncols (data G') = nat (N notebook_params)"
    by blast
  then show ?thesis using h unfolding n by blast
qed

text \<open>
  C5 (amended). Neither estimator checks the number of observations. With a solver that
  accepts a single observation, the Time-Series Estimator given \<open>T = 1\<close> returns \<open>N\<close>
  slopes and the Cross-Sectional Estimator given \<open>N = 1\<close> returns \<open>T\<close> premium estimates.
  An estimator fails only with the error of one of its own steps on some asset (or
  period): the array index, the solver call, or the reading of \<open>coef_[0]\<close>.
\<close>

theorem estimators_no_observation_check:
  assumes solver: "\<forall>X y. length X = 1 \<and> length y = 1 \<longrightarrow>
             (\<exists>model c. fit LinearRegression X y = Inr model \<and> coef0 model = Inr c)"
    and shape: "well_shaped (data G)"
  shows "(length (mkt G) = 1 \<and> nrows (data G) = 1 \<and> ncols (data G) = nat (N p) \<longrightarrow>
            (\<exists>G'. time_series fit p G = Inr G' \<and> length (b G') = nat (N p))) \<and>
         (length (b G) = 1 \<and> ncols (data G) = 1 \<and> nrows (data G) = nat (T p) \<longrightarrow>
            (\<exists>G'. cross_sectional fit p G = Inr G' \<and> length (res G') = nat (T p))) \<and>
         (\<forall>e. time_series fit p G = Inl e \<longrightarrow>
            (\<exists>j<nat (N p). column (data G) j = Inl e \<or>
               (\<exists>y. column (data G) j = Inr y \<and>
                  (fit LinearRegression (mkt G) y = Inl e \<or>
                   (\<exists>model. fit LinearRegression (mkt G) y = Inr model \<and> coef0 model = Inl e))))) \<and>
         (\<forall>e. cross_sectional fit p G = Inl e \<longrightarrow>
            (\<exists>i<nat (T p). row_at (data G) i = Inl e \<or>
               (\<exists>y. row_at (data G) i = Inr y \<and>
                  (fit LinearRegression (b G) y = Inl e \<or>
                   (\<exists>model. fit LinearRegression (b G) y = Inr model \<and> coef0 model = Inl e)))))"
proof -
  have one_period: "length (mkt G) = 1 \<and> nrows (data G) = 1 \<and> ncols (data G) = nat (N p) \<longrightarrow>
            (\<exists>G'. time_series fit p G = Inr G' \<and> length (b G') = nat (N p))"
  proof
    assume h: "length (mkt G) = 1 \<and> nrows (data G) = 1 \<and> ncols (data G) = nat (N p)"
    let ?G0 = "G\<lparr>b := []\<rparr>"
    have "\<forall>i\<in>set [0..<nat (N p)]. \<exists>y model c. column (data ?G0) i = Inr y \<and>
               fit LinearRegression (mkt ?G0) y = Inr model \<and> coef0 model = Inr c"
    proof
      fix i assume "i \<in> set [0..<nat (N p)]"
      then have col: "column (data ?G0) i = Inr (map (\<lambda>r. r ! i) (cells (data G)))"
        using h by (simp add: column_def)
      have "length (map (\<lambda>r. r ! i) (cells (data G))) = 1"
        using shape h by (simp add: well_shaped_def)
      with solver h obtain model c where
        "fit LinearRegression (mkt G) (map (\<lambda>r. r ! i) (cells (data G))) = Inr model" "coef0 model = Inr c"
        by blast
      with col show "\<exists>y model c. column (data ?G0) i = Inr y \<and>
               fit LinearRegression (mkt ?G0) y = Inr model \<and> coef0 model = Inr c"
        by simp
    qed
    then have "\<exists>G'. ts_loop fit [0..<nat (N p)] ?G0 = Inr G'"
      by (rule ts_loop_succeeds[where fit = fit and G = "?G0" and js = "[0..<nat (N p)]"])
    then obtain G' where run: "ts_loop fit [0..<nat (N p)] ?G0 = Inr G'" by blast
    from ts_loop_Inr[OF run] obtain cs where
      "G' = ?G0\<lparr>b := b ?G0 @ cs\<rparr>" "length cs = nat (N p)"
      by (auto dest: list_all2_lengthD)
    then show "\<exists>G'. time_series fit p G = Inr G' \<and> length (b G') = nat (N p)"
      using run by (simp add: time_series_def)
  qed
  have one_asset: "length (b G) = 1 \<and> ncols (data G) = 1 \<and> nrows (data G) = nat (T p) \<longrightarrow>
            (\<exists>G'. cross_sectional fit p G = Inr G' \<and> length (res G') = nat (T p))"
  proof
    assume h: "length (b G) = 1 \<and> ncols (data G) = 1 \<and> nrows (data G) = nat (T p)"
    let ?G0 = "G\<lparr>res := []\<rparr>"
    have "\<forall>i\<in>set [0..<nat (T p)]. \<exists>y model c. row_at (data ?G0) i = Inr y \<and>
               fit LinearRegression (b ?G0) y = Inr model \<and> coef0 model = Inr c"
    proof
      fix i assume i: "i \<in> set [0..<nat (T p)]"
      then have row: "row_at (data ?G0) i = Inr (cells (data G) ! i)"
        using h by (simp add: row_at_def)
      have "length (cells (data G) ! i) = 1"
        using well_shaped_row[OF shape, of i] h i by simp
      with solver h obtain model c where
        "fit LinearRegression (b G) (cells (data G) ! i) = Inr model" "coef0 model = Inr c"
        by blast
      with row show "\<exists>y model c. row_at (data ?G0) i = Inr y \<and>
               fit LinearRegression (b ?G0) y = Inr model \<and> coef0 model = Inr c"
        by simp
    qed
    then have "\<exists>G'. cs_loop fit [0..<nat (T p)] ?G0 = Inr G'"
      by (rule cs_loop_succeeds[where fit = fit and G = "?G0" and js = "[0..<nat (T p)]"])
    then obtain G' where run: "cs_loop fit [0..<nat (T p)] ?G0 = Inr G'" by blast
    from cs_loop_Inr[OF run] obtain cs where
      "G' = ?G0\<lparr>res := res ?G0 @ cs\<rparr>" "length cs = nat (T p)"
      by (auto dest: list_all2_lengthD)
    then show "\<exists>G'. cross_sectional fit p G = Inr G' \<and> length (res G') = nat (T p)"
      using run by (simp add: cross_sectional_def)
  qed
  have ts_fail: "\<exists>j<nat (N p). column (data G) j = Inl e \<or>
               (\<exists>y. column (data G) j = Inr y \<and>
                  (fit LinearRegression (mkt G) y = Inl e \<or>
                   (\<exists>model. fit LinearRegression (mkt G) y = Inr model \<and> coef0 model = Inl e)))"
    if "time_series fit p G = Inl e" for e
    using ts_loop_Inl[OF that[unfolded time_series_def]] by (simp add: Bex_def)
  have cs_fail: "\<exists>i<nat (T p). row_at (data G) i = Inl e \<or>
               (\<exists>y. row_at (data G) i = Inr y \<and>
                  (fit LinearRegression (b G) y = Inl e \<or>
                   (\<exists>model. fit LinearRegression (b G) y = Inr model \<and> coef0 model = Inl e)))"
    if "cross_sectional fit p G = Inl e" for e
    using cs_loop_Inl[OF that[unfolded cross_sectional_def]] by (simp add: Bex_def)
  from one_period one_asset ts_fail cs_fail show ?thesis by blast
qed

theorem estimators_no_observation_check_witness:
  "well_shaped \<lparr>nrows = 1, ncols = 1, cells = [[2]]\<rparr> \<and>
   (\<exists>G'. time_series LinearRegression_fit \<lparr>rf = 0, N = 1, T = 1, dt = 1, s = 1\<rparr>
      \<lparr>rng = (0::nat), beta_true = [], mkt = [1],
       data = \<lparr>nrows = 1, ncols = 1, cells = [[2]]\<rparr>, b = [0], res = []\<rparr> = Inr G' \<and>
      length (b G') = 1) \<and>
   (\<exists>G'. cross_sectional LinearRegression_fit \<lparr>rf = 0, N = 1, T = 1, dt = 1, s = 1\<rparr>
      \<lparr>rng = (0::nat), beta_true = [], mkt = [1],
       data = \<lparr>nrows = 1, ncols = 1, cells = [[2]]\<rparr>, b = [0], res = []\<rparr> = Inr G' \<and>
      length (res G') = 1) \<and>
   well_shaped \<lparr>nrows = 0, ncols = 1, cells = []\<rparr> \<and>
   time_series LinearRegression_fit \<lparr>rf = 0, N = 1, T = 0, dt = 1, s = 1\<rparr>
      \<lparr>rng = (0::nat), beta_true = [], mkt = [],
       data = \<lparr>nrows = 0, ncols = 1, cells = []\<rparr>, b = [], res = []\<rparr> = Inl ValueError \<and>
   (\<exists>j<1. column \<lparr>nrows = 0, ncols = 1, cells = []\<rparr> j = Inl ValueError \<or>
      (\<exists>y. column \<lparr>nrows = 0, ncols = 1, cells = []\<rparr> j = Inr y \<and>
         (LinearRegression_fit LinearRegression [] y = Inl ValueError \<or>
          (\<exists>model. LinearRegression_fit LinearRegression [] y = Inr model \<and>
             coef0 model = Inl ValueError))))"
proof -
  let ?p = "\<lparr>rf = 0, N = 1, T = 1, dt = 1, s = 1\<rparr>"
  let ?G = "\<lparr>rng = (0::nat), beta_true = [], mkt = [1],
       data = \<lparr>nrows = 1, ncols = 1, cells = [[2]]\<rparr>, b = [0], res = []\<rparr>"
  let ?pz = "\<lparr>rf = 0, N = 1, T = 0, dt = 1, s = 1\<rparr>"
  let ?Gz = "\<lparr>rng = (0::nat), beta_true = [], mkt = [],
       data = \<lparr>nrows = 0, ncols = 1, cells = []\<rparr>, b = [], res = []\<rparr>"
  have solver: "\<forall>X y. length X = 1 \<and> length y = 1 \<longrightarrow>
      (\<exists>model c. LinearRegression_fit LinearRegression X y = Inr model \<and> coef0 model = Inr c)"
    by (auto simp: LinearRegression_fit_def coef0_def Let_def)
  have ws: "well_shaped (data ?G)" by (simp add: well_shaped_def)
  have ws0: "well_shaped (data ?Gz)" by (simp add: well_shaped_def)
  have fails: "time_series LinearRegression_fit ?pz ?Gz = Inl ValueError"
    by (simp add: time_series_def column_def LinearRegression_fit_def)
  note ok = estimators_no_observation_check[where fit = LinearRegression_fit and G = "?G" and p = "?p",
      OF solver ws]
  note ko = estimators_no_observation_check[where fit = LinearRegression_fit and G = "?Gz" and p = "?pz",
      OF solver ws0]
  have s1: "\<exists>G'. time_series LinearRegression_fit ?p ?G = Inr G' \<and> length (b G') = 1"
    using ok by simp
  have s2: "\<exists>G'. cross_sectional LinearRegression_fit ?p ?G = Inr G' \<and> length (res G') = 1"
    using ok by simp
  from ko fails have "\<exists>j<nat (N ?pz). column (data ?Gz) j = Inl ValueError \<or>
      (\<exists>y. column (data ?Gz) j = Inr y \<and>
         (LinearRegression_fit LinearRegression (mkt ?Gz) y = Inl ValueError \<or>
          (\<exists>model. LinearRegression_fit LinearRegression (mkt ?Gz) y = Inr model \<and>
             coef0 model = Inl ValueError)))"
    by blast
  then have f: "\<exists>j<1. column \<lparr>nrows = 0, ncols = 1, cells = []\<rparr> j = Inl ValueError \<or>
      (\<exists>y. column \<lparr>nrows = 0, ncols = 1, cells = []\<rparr> j = Inr y \<and>
         (LinearRegression_fit LinearRegression [] y = Inl ValueError \<or>
          (\<exists>model. LinearRegression_fit LinearRegression [] y = Inr model \<and>
             coef0 model = Inl ValueError)))"
    by simp
  have w1: "well_shaped \<lparr>nrows = 1, ncols = 1, cells = [[2]]\<rparr>" using ws by simp
  have w0: "well_shaped \<lparr>nrows = 0, ncols = 1, cells = []\<rparr>" using ws0 by simp
  from w1 s1 s2 w0 fails f show ?thesis by blast
qed

text \<open>
  C5 as stated fails: with the library's solver, one period and one asset, both
  estimators return a result (slope 0) instead of an error.
\<close>

theorem estimators_no_observation_check_counterexample:
  "time_series LinearRegression_fit \<lparr>rf = 0, N = 1, T = 1, dt = 1, s = 1\<rparr>
      \<lparr>rng = (0::nat), beta_true = [], mkt = [1],
       data = \<lparr>nrows = 1, ncols = 1, cells = [[2]]\<rparr>, b = [], res = []\<rparr>
     = Inr \<lparr>rng = (0::nat), beta_true = [], mkt = [1],
            data = \<lparr>nrows = 1, ncols = 1, cells = [[2]]\<rparr>, b = [0], res = []\<rparr> \<and>
   cross_sectional LinearRegression_fit \<lparr>rf = 0, N = 1, T = 1, dt = 1, s = 1\<rparr>
      \<lparr>rng = (0::nat), beta_true = [], mkt = [1],
       data = \<lparr>nrows = 1, ncols = 1, cells = [[2]]\<rparr>, b = [0], res = []\<rparr>
     = Inr \<lparr>rng = (0::nat), beta_true = [], mkt = [1],
            data = \<lparr>nrows = 1, ncols = 1, cells = [[2]]\<rparr>, b = [0], res = [0]\<rparr>"
  by (simp add: time_series_def cross_sectional_def column_def row_at_def
      LinearRegression_fit_def LinearRegression_def coef0_def mean_def)

text \<open>
  C6 (amended). The Market Simulator fails whenever \<open>N < 0\<close> or \<open>T < 0\<close>, with an error of
  the array library and not with an InvalidDimension error, which the code does not have;
  for \<open>N < 0\<close> the error is the library's ValueError.
\<close>

theorem simulate_negative_dimension:
  "(N p < 0 \<or> T p < 0 \<longrightarrow> (\<exists>e. simulate gauss p G = Inl e)) \<and>
   (N p < 0 \<longrightarrow> simulate gauss p G = Inl ValueError)"
  using simulate_Inl[of p gauss G] by auto

theorem simulate_negative_dimension_witness:
  "simulate (\<lambda>g::nat. (real g, Suc g)) \<lparr>rf = 1, N = - 1, T = 2, dt = 1, s = 3\<rparr>
      \<lparr>rng = 0, beta_true = [], mkt = [], data = \<lparr>nrows = 0, ncols = 0, cells = []\<rparr>,
       b = [], res = []\<rparr> = Inl ValueError \<and>
   (\<exists>e. simulate (\<lambda>g::nat. (real g, Suc g)) \<lparr>rf = 1, N = 2, T = - 1, dt = 1, s = 3\<rparr>
      \<lparr>rng = 0, beta_true = [], mkt = [], data = \<lparr>nrows = 0, ncols = 0, cells = []\<rparr>,
       b = [], res = []\<rparr> = Inl e)"
proof -
  let ?G = "\<lparr>rng = (0::nat), beta_true = [], mkt = [], data = \<lparr>nrows = 0, ncols = 0, cells = []\<rparr>,
       b = [], res = []\<rparr>"
  from simulate_negative_dimension[of "\<lparr>rf = 1, N = - 1, T = 2, dt = 1, s = 3\<rparr>" "\<lambda>g::nat. (real g, Suc g)" ?G]
    simulate_negative_dimension[of "\<lparr>rf = 1, N = 2, T = - 1, dt = 1, s = 3\<rparr>" "\<lambda>g::nat. (real g, Suc g)" ?G]
  show ?thesis by simp
qed

text \<open>
  C6 as stated fails: with \<open>N = 0\<close> and \<open>T = 2\<close> the simulator returns an empty sensitivity
  vector, a factor series of two entries and a \<open>2 \<times> 0\<close> panel.
\<close>

theorem simulate_no_dimension_check_counterexample:
  "simulate (\<lambda>g::nat. (real g, Suc g)) \<lparr>rf = 1, N = 0, T = 2, dt = 1, s = 3\<rparr>
      \<lparr>rng = 0, beta_true = [], mkt = [], data = \<lparr>nrows = 0, ncols = 0, cells = []\<rparr>,
       b = [], res = []\<rparr>
   = Inr \<lparr>rng = 2, beta_true = [], mkt = [0.06, 1.06],
          data = \<lparr>nrows = 2, ncols = 0, cells = [[], []]\<rparr>, b = [], res = []\<rparr>"
  by (simp add: simulate_def random_normal_def standard_normal_def standard_normal2_def
      eval_nat_numeral upt_rec)

text \<open>
  C7. A run of the simulator seeds the generator and then simulates. Whatever the global
  state was before, two runs with the same seed and the same parameters end alike: both
  fail with the same error, or both produce the same sensitivity vector, factor series,
  return panel and generator state.
\<close>

theorem simulator_reproducible:
  "map_sum id (\<lambda>G'. (beta_true G', mkt G', data G', rng G')) (run_simulator init gauss sd p G1)
   = map_sum id (\<lambda>G'. (beta_true G', mkt G', data G', rng G')) (run_simulator init gauss sd p G2)"
proof (cases "N p < 0 \<or> T p < 0")
  case True
  then show ?thesis by (simp add: run_simulator_def simulate_Inl)
next
  case False
  then have "0 \<le> N p" "0 \<le> T p" by simp_all
  then show ?thesis
    by (simp add: run_simulator_def np_random_seed_def simulate_Inr)
qed

text \<open>
  C8. When the estimation pipeline completes, the sensitivity vector at its end is the one
  the Time-Series Estimator produced, the factor series, the return panel and the true
  sensitivities are those it started with, and every one of the \<open>T\<close> period estimates is
  the slope of a regression of that period's row on that same sensitivity vector. The
  notebook itself only appends to \<open>b\<close> in the first pass and to \<open>res\<close> in the second; that
  a call of the solver leaves the arrays it receives as they are is the library's
  contract (it fits on a copy), which the model expresses by making the solver a
  function of the values it receives.
\<close>

theorem sensitivities_fixed:
  assumes "fama_macbeth fit sf p G = Inr (G2, S)"
  shows "\<exists>G1. time_series fit p G = Inr G1 \<and> cross_sectional fit p G1 = Inr G2 \<and>
           b G2 = b G1 \<and> mkt G1 = mkt G \<and> mkt G2 = mkt G \<and> data G1 = data G \<and> data G2 = data G \<and>
           beta_true G2 = beta_true G \<and> length (res G2) = nat (T p) \<and>
           (\<forall>i<nat (T p). \<exists>y model. row_at (data G) i = Inr y \<and>
               fit LinearRegression (b G1) y = Inr model \<and> coef0 model = Inr (res G2 ! i))"
proof -
  from assms obtain G1 where
    ts: "time_series fit p G = Inr G1" and cs: "cross_sectional fit p G1 = Inr G2"
    by (auto simp: fama_macbeth_def split: sum.splits)
  from time_series_frame[OF ts] cross_sectional_frame[OF cs] ts cs show ?thesis
    by auto
qed

theorem sensitivities_fixed_witness:
  "\<exists>G1 G2 S.
      fama_macbeth LinearRegression_fit (\<lambda>x df. 1 / 2) \<lparr>rf = 0, N = 2, T = 3, dt = 1, s = 1\<rparr>
        \<lparr>rng = (0::nat), beta_true = [], mkt = [0, 1, 2],
         data = \<lparr>nrows = 3, ncols = 2, cells = [[1, 2], [3, 6], [5, 10]]\<rparr>, b = [], res = []\<rparr>
        = Inr (G2, S) \<and>
      time_series LinearRegression_fit \<lparr>rf = 0, N = 2, T = 3, dt = 1, s = 1\<rparr>
        \<lparr>rng = (0::nat), beta_true = [], mkt = [0, 1, 2],
         data = \<lparr>nrows = 3, ncols = 2, cells = [[1, 2], [3, 6], [5, 10]]\<rparr>, b = [], res = []\<rparr>
        = Inr G1 \<and>
      b G1 = [2, 4] \<and> b G2 = [2, 4] \<and> res G2 = [1 / 2, 3 / 2, 5 / 2] \<and>
      mkt G2 = [0, 1, 2] \<and> data G2 = \<lparr>nrows = 3, ncols = 2, cells = [[1, 2], [3, 6], [5, 10]]\<rparr> \<and>
      (\<exists>model. LinearRegression_fit LinearRegression (b G1) [1, 2] = Inr model \<and>
                coef0 model = Inr (res G2 ! 0)) \<and>
      (\<exists>model. LinearRegression_fit LinearRegression (b G1) [3, 6] = Inr model \<and>
                coef0 model = Inr (res G2 ! 1)) \<and>
      (\<exists>model. LinearRegression_fit LinearRegression (b G1) [5, 10] = Inr model \<and>
                coef0 model = Inr (res G2 ! 2))"
proof -
  let ?p = "\<lparr>rf = 0, N = 2, T = 3, dt = 1, s = 1\<rparr>"
  let ?D = "\<lparr>nrows = 3, ncols = 2, cells = [[1, 2], [3, 6], [5, 10]]\<rparr>"
  let ?G = "\<lparr>rng = (0::nat), beta_true = [], mkt = [0, 1, 2], data = ?D, b = [], res = []\<rparr>"
  let ?Ga = "\<lparr>rng = (0::nat), beta_true = [], mkt = [0, 1, 2], data = ?D, b = [2, 4], res = []\<rparr>"
  let ?Gb = "\<lparr>rng = (0::nat), beta_true = [], mkt = [0, 1, 2], data = ?D, b = [2, 4],
             res = [1 / 2, 3 / 2, 5 / 2]\<rparr>"
  let ?S = "summarize (\<lambda>x df. 1 / 2) ?p ?Gb"
  have run: "fama_macbeth LinearRegression_fit (\<lambda>x df. 1 / 2) ?p ?G = Inr (?Gb, ?S)"
    by (simp add: fama_macbeth_def time_series_worked cross_sectional_worked)
  from sensitivities_fixed[OF run] obtain G1 where
    g1: "time_series LinearRegression_fit ?p ?G = Inr G1" "b ?Gb = b G1"
    and regs: "\<forall>i<nat (T ?p). \<exists>y model. row_at (data ?G) i = Inr y \<and>
               LinearRegression_fit LinearRegression (b G1) y = Inr model \<and>
               coef0 model = Inr (res ?Gb ! i)"
    by blast
  have r0: "\<exists>model. LinearRegression_fit LinearRegression (b G1) [1, 2] = Inr model \<and>
                coef0 model = Inr (res ?Gb ! 0)"
    using regs[rule_format, of 0] by (simp add: row_at_def)
  have r1: "\<exists>model. LinearRegression_fit LinearRegression (b G1) [3, 6] = Inr model \<and>
                coef0 model = Inr (res ?Gb ! 1)"
    using regs[rule_format, of 1] by (simp add: row_at_def)
  have r2: "\<exists>model. LinearRegression_fit LinearRegression (b G1) [5, 10] = Inr model \<and>
                coef0 model = Inr (res ?Gb ! 2)"
    using regs[rule_format, of 2] by (simp add: row_at_def)
  have bG1: "b G1 = [2, 4]" using g1(2) by simp
  have fields: "b ?Gb = [2, 4]" "res ?Gb = [1 / 2, 3 / 2, 5 / 2]" "mkt ?Gb = [0, 1, 2]" "data ?Gb = ?D"
    by simp_all
  from run g1(1) bG1 fields r0 r1 r2 show ?thesis by blast
qed

text \<open>
  C10. Each pass calls the solver once per asset (per period) with the default estimator,
  that is with \<open>fit_intercept = True\<close>, and appends the first entry of the fitted
  coefficient vector: on completion \<open>b\<close> has \<open>N\<close> entries and \<open>res\<close> has \<open>T\<close>, each that
  first coefficient, and nothing else of the state has changed, so the fitted intercept is
  stored nowhere. Hence two solvers that agree on the first coefficient (and on failure)
  when fitting with an intercept give the same results in both passes and in the whole
  pipeline, whatever intercepts they fit.
\<close>

theorem intercept_discarded:
  assumes "\<forall>X y. (case fit1 \<lparr>fit_intercept = True\<rparr> X y of Inl e \<Rightarrow> Inl e | Inr model \<Rightarrow> coef0 model)
               = (case fit2 \<lparr>fit_intercept = True\<rparr> X y of Inl e \<Rightarrow> Inl e | Inr model \<Rightarrow> coef0 model)"
  shows "time_series fit1 p G = time_series fit2 p G \<and>
         cross_sectional fit1 p G = cross_sectional fit2 p G \<and>
         fama_macbeth fit1 sf p G = fama_macbeth fit2 sf p G \<and>
         (\<forall>G'. time_series fit1 p G = Inr G' \<longrightarrow>
            G' = G\<lparr>b := b G'\<rparr> \<and> length (b G') = nat (N p) \<and>
            (\<forall>j<nat (N p). \<exists>y model cs. column (data G) j = Inr y \<and>
                fit1 \<lparr>fit_intercept = True\<rparr> (mkt G) y = Inr model \<and>
                coef model = b G' ! j # cs)) \<and>
         (\<forall>G'. cross_sectional fit1 p G = Inr G' \<longrightarrow>
            G' = G\<lparr>res := res G'\<rparr> \<and> length (res G') = nat (T p) \<and>
            (\<forall>i<nat (T p). \<exists>y model cs. row_at (data G) i = Inr y \<and>
                fit1 \<lparr>fit_intercept = True\<rparr> (b G) y = Inr model \<and>
                coef model = res G' ! i # cs))"
proof -
  have h: "(case fit1 LinearRegression X y of Inl e \<Rightarrow> Inl e | Inr model \<Rightarrow> coef0 model)
         = (case fit2 LinearRegression X y of Inl e \<Rightarrow> Inl e | Inr model \<Rightarrow> coef0 model)" for X y
    using assms by (simp add: LinearRegression_def)
  have ts: "time_series fit1 p G' = time_series fit2 p G'" for G' :: "'a globals"
    unfolding time_series_def by (rule ts_loop_slope_only[where ?fit1.0 = fit1 and ?fit2.0 = fit2, OF h])
  have cs: "cross_sectional fit1 p G' = cross_sectional fit2 p G'" for G' :: "'a globals"
    unfolding cross_sectional_def by (rule cs_loop_slope_only[where ?fit1.0 = fit1 and ?fit2.0 = fit2, OF h])
  have fm: "fama_macbeth fit1 sf p G = fama_macbeth fit2 sf p G"
    by (simp add: ts cs fama_macbeth_def split: sum.splits)
  have kept_b: "G' = G\<lparr>b := b G'\<rparr> \<and> length (b G') = nat (N p) \<and>
            (\<forall>j<nat (N p). \<exists>y model cs. column (data G) j = Inr y \<and>
                fit1 \<lparr>fit_intercept = True\<rparr> (mkt G) y = Inr model \<and>
                coef model = b G' ! j # cs)"
    if "time_series fit1 p G = Inr G'" for G'
    using time_series_result[OF that] by (simp add: coef0_Inr LinearRegression_def)
  have kept_res: "G' = G\<lparr>res := res G'\<rparr> \<and> length (res G') = nat (T p) \<and>
            (\<forall>i<nat (T p). \<exists>y model cs. row_at (data G) i = Inr y \<and>
                fit1 \<lparr>fit_intercept = True\<rparr> (b G) y = Inr model \<and>
                coef model = res G' ! i # cs)"
    if "cross_sectional fit1 p G = Inr G'" for G'
    using cross_sectional_frame[OF that] cross_sectional_result[OF that]
    by (simp add: coef0_Inr LinearRegression_def)
  from ts[of G] cs[of G] fm kept_b kept_res show ?thesis by blast
qed

theorem intercept_discarded_witness:
  "(\<forall>X y. (case LinearRegression_fit \<lparr>fit_intercept = True\<rparr> X y of
              Inl e \<Rightarrow> Inl e | Inr model \<Rightarrow> coef0 model)
         = (case (\<lambda>est X y. if fit_intercept est
                    then (case LinearRegression_fit est X y of
                            Inl e \<Rightarrow> Inl e | Inr model \<Rightarrow> Inr (model\<lparr>intercept := 7\<rparr>))
                    else Inl ValueError) \<lparr>fit_intercept = True\<rparr> X y of
              Inl e \<Rightarrow> Inl e | Inr model \<Rightarrow> coef0 model)) \<and>
   fama_macbeth LinearRegression_fit (\<lambda>x df. 1 / 2) \<lparr>rf = 0, N = 2, T = 3, dt = 1, s = 1\<rparr>
      \<lparr>rng = (0::nat), beta_true = [], mkt = [0, 1, 2],
       data = \<lparr>nrows = 3, ncols = 2, cells = [[1, 2], [3, 6], [5, 10]]\<rparr>, b = [], res = []\<rparr>
   = fama_macbeth (\<lambda>est X y. if fit_intercept est
                    then (case LinearRegression_fit est X y of
                            Inl e \<Rightarrow> Inl e | Inr model \<Rightarrow> Inr (model\<lparr>intercept := 7\<rparr>))
                    else Inl ValueError) (\<lambda>x df. 1 / 2) \<lparr>rf = 0, N = 2, T = 3, dt = 1, s = 1\<rparr>
      \<lparr>rng = (0::nat), beta_true = [], mkt = [0, 1, 2],
       data = \<lparr>nrows = 3, ncols = 2, cells = [[1, 2], [3, 6], [5, 10]]\<rparr>, b = [], res = []\<rparr> \<and>
   (\<exists>G'. time_series LinearRegression_fit \<lparr>rf = 0, N = 2, T = 3, dt = 1, s = 1\<rparr>
      \<lparr>rng = (0::nat), beta_true = [], mkt = [0, 1, 2],
       data = \<lparr>nrows = 3, ncols = 2, cells = [[1, 2], [3, 6], [5, 10]]\<rparr>, b = [], res = []\<rparr>
      = Inr G' \<and> b G' = [2, 4] \<and>
      (\<exists>y model cs. column \<lparr>nrows = 3, ncols = 2, cells = [[1, 2], [3, 6], [5, 10]]\<rparr> 0 = Inr y \<and>
          LinearRegression_fit \<lparr>fit_intercept = True\<rparr> [0, 1, 2] y = Inr model \<and>
          coef model = b G' ! 0 # cs)) \<and>
   LinearRegression_fit \<lparr>fit_intercept = True\<rparr> [0, 1, 2] [1, 3, 5]
     = Inr \<lparr>coef = [2], intercept = 1\<rparr> \<and>
   LinearRegression_fit \<lparr>fit_intercept = False\<rparr> [0, 1, 2] [1, 3, 5]
     = Inr \<lparr>coef = [13 / 5], intercept = 0\<rparr>"
proof -
  let ?fit2 = "\<lambda>est X y. if fit_intercept est
                    then (case LinearRegression_fit est X y of
                            Inl e \<Rightarrow> Inl e | Inr model \<Rightarrow> Inr (model\<lparr>intercept := 7\<rparr>))
                    else Inl ValueError"
  let ?p = "\<lparr>rf = 0, N = 2, T = 3, dt = 1, s = 1\<rparr>"
  let ?D = "\<lparr>nrows = 3, ncols = 2, cells = [[1, 2], [3, 6], [5, 10]]\<rparr>"
  let ?G = "\<lparr>rng = (0::nat), beta_true = [], mkt = [0, 1, 2], data = ?D, b = [], res = []\<rparr>"
  let ?Ga = "\<lparr>rng = (0::nat), beta_true = [], mkt = [0, 1, 2], data = ?D, b = [2, 4], res = []\<rparr>"
  have h: "\<forall>X y. (case LinearRegression_fit \<lparr>fit_intercept = True\<rparr> X y of
              Inl e \<Rightarrow> Inl e | Inr model \<Rightarrow> coef0 model)
         = (case ?fit2 \<lparr>fit_intercept = True\<rparr> X y of
              Inl e \<Rightarrow> Inl e | Inr model \<Rightarrow> coef0 model)"
    by (simp add: coef0_def split: sum.splits)
  note inst = intercept_discarded[where ?fit1.0 = LinearRegression_fit and ?fit2.0 = "?fit2"
      and p = "?p" and G = "?G" and sf = "\<lambda>x df. 1 / 2", OF h]
  have same: "fama_macbeth LinearRegression_fit (\<lambda>x df. 1 / 2) ?p ?G
      = fama_macbeth ?fit2 (\<lambda>x df. 1 / 2) ?p ?G"
    using inst by blast
  have run: "time_series LinearRegression_fit ?p ?G = Inr ?Ga" by (rule time_series_worked)
  from inst run have "\<forall>j<nat (N ?p). \<exists>y model cs. column (data ?G) j = Inr y \<and>
                LinearRegression_fit \<lparr>fit_intercept = True\<rparr> (mkt ?G) y = Inr model \<and>
                coef model = b ?Ga ! j # cs"
    by blast
  from this[rule_format, of 0]
  have kept: "\<exists>y model cs. column ?D 0 = Inr y \<and>
          LinearRegression_fit \<lparr>fit_intercept = True\<rparr> [0, 1, 2] y = Inr model \<and>
          coef model = b ?Ga ! 0 # cs"
    by simp
  have ts: "\<exists>G'. time_series LinearRegression_fit ?p ?G = Inr G' \<and> b G' = [2, 4] \<and>
      (\<exists>y model cs. column ?D 0 = Inr y \<and>
          LinearRegression_fit \<lparr>fit_intercept = True\<rparr> [0, 1, 2] y = Inr model \<and>
          coef model = b G' ! 0 # cs)"
    using run kept by (intro exI[of _ ?Ga]) simp
  have with_intercept: "LinearRegression_fit \<lparr>fit_intercept = True\<rparr> [0, 1, 2] [1, 3, 5]
     = Inr \<lparr>coef = [2], intercept = 1\<rparr>"
    using fit_worked_columns(1) by (simp add: LinearRegression_def)
  have without_intercept: "LinearRegression_fit \<lparr>fit_intercept = False\<rparr> [0, 1, 2] [1, 3, 5]
     = Inr \<lparr>coef = [13 / 5], intercept = 0\<rparr>"
    by (simp add: LinearRegression_fit_def Let_def eval_nat_numeral lessThan_Suc)
  from h same ts with_intercept without_intercept show ?thesis by blast
qed

end
